theory Spec2Isabelle
  imports Complex_Main "HOL-Library.Sublist" "HOL-Library.AList"
begin

section \<open>Python values\<close>

text \<open>
  The value \<^verbatim>\<open>json.loads\<close> returns is any JSON value, not only an object. An object
  is a Python dict: an association list whose keys are looked up with \<open>map_of\<close>. Strings are
  lists of 8-bit characters; a float is the real number it stands for.
\<close>

datatype json =
    JNull
  | JBool bool
  | JInt int
  | JFloat real
  | JStr string
  | JArr "json list"
  | JObj "(string \<times> json) list"

text \<open>
  An exception of a library call (the model client, the JSON decoder, the HTTP client, the
  markup parser): every one of them derives from \<^verbatim>\<open>Exception\<close>; \<open>exn_str\<close> is
  \<^verbatim>\<open>str(e)\<close>.
\<close>

datatype exn = Raised (exn_str: string)

text \<open>
  The exceptions raised on an operand of the wrong type: by the interpreter, and
  \<^verbatim>\<open>ValueError\<close> by Plotly on a property value it does not accept.
\<close>

datatype py_error = TypeError | AttributeError | KeyError | ValueError

subsection \<open>String methods\<close>

text \<open>\<^verbatim>\<open>str.isspace\<close> on the code points below 256.\<close>

definition isspace :: "char \<Rightarrow> bool" where
  "isspace c = (c \<in> set [CHR 0x09, CHR 0x0A, CHR 0x0B, CHR 0x0C, CHR 0x0D, CHR 0x1C,
     CHR 0x1D, CHR 0x1E, CHR 0x1F, CHR 0x20, CHR 0x85, CHR 0xA0])"

text \<open>\<^verbatim>\<open>s.strip()\<close>: leading and trailing whitespace removed.\<close>

definition strip :: "string \<Rightarrow> string" where
  "strip s = rev (dropWhile isspace (rev (dropWhile isspace s)))"

text \<open>
  \<^verbatim>\<open>s.replace(old, new)\<close>: the occurrences of \<open>old\<close> are found from the left and do
  not overlap. With an empty \<open>old\<close>, Python puts \<open>new\<close> before every character and at the end.
\<close>

function replace :: "string \<Rightarrow> string \<Rightarrow> string \<Rightarrow> string" where
  "replace old new [] = (if old = [] then new else [])"
| "replace old new (c # cs) =
     (if old = [] then new @ c # replace old new cs
      else if prefix old (c # cs) then new @ replace old new (drop (length old) (c # cs))
      else c # replace old new cs)"
  by pat_completeness auto
termination
  by (relation "measure (\<lambda>(old, new, s). length s)") (auto simp: neq_Nil_conv)

text \<open>\<^verbatim>\<open>sep.join(xs)\<close>.\<close>

fun join :: "string \<Rightarrow> string list \<Rightarrow> string" where
  "join sep [] = []"
| "join sep [x] = x"
| "join sep (x # y # ys) = x @ sep @ join sep (y # ys)"

section \<open>The analysis pipeline\<close>

type_synonym image = string

text \<open>One entry of \<^verbatim>\<open>request_content\<close>: the prompt, or the image after it.\<close>

datatype part = PromptText string | PromptImage image

text \<open>
  The two library calls of the pipeline are parameters. \<open>generate\<close> is
  \<^verbatim>\<open>model.generate_content(request_content)\<close> followed by \<^verbatim>\<open>response.text\<close>: the text,
  or the exception (network, authentication, quota, a blocked response). \<open>loads\<close> is
  \<^verbatim>\<open>json.loads\<close>: the value, or the decoder's exception.
\<close>

type_synonym generative_model = "part list \<Rightarrow> exn + string"
type_synonym decoder = "string \<Rightarrow> exn + json"

definition prompt_template :: "string \<Rightarrow> string" where
  "prompt_template text_prompt =
     ''\<newline>    As an expert misinformation analyst specializing in the Indian context, analyze the provided content. If the content is an image, describe it, extract any text, and then analyze. Your goal is to identify red flags and educate the user. Do not give a simple true/false verdict.\<newline>    Content to analyze: --- ''
     @ text_prompt @
     '' ---\<newline>    Provide your analysis ONLY in a structured JSON format with keys: \"credibility_score\", \"summary\", \"red_flags\", \"educational_insight\". The \"red_flags\" key must be a list of JSON objects, where each object has a \"flag_type\" and a \"description\".\<newline>    ''"

text \<open>\<^verbatim>\<open>[prompt_template, image] if image else [prompt_template]\<close>\<close>

definition request_content :: "string \<Rightarrow> image option \<Rightarrow> part list" where
  "request_content text_prompt img =
     (case img of
        Some img \<Rightarrow> [PromptText (prompt_template text_prompt), PromptImage img]
      | None \<Rightarrow> [PromptText (prompt_template text_prompt)])"

text \<open>
  \<^verbatim>\<open>response.text.strip().replace("```json", "").replace("```", "")\<close>
\<close>

definition strip_fences :: "string \<Rightarrow> string" where
  "strip_fences text = replace ''```'' [] (replace ''```json'' [] (strip text))"

text \<open>The dict of the \<^verbatim>\<open>except\<close> branch.\<close>

definition failure_prefix :: string where
  "failure_prefix = ''AI analysis failed. The model response was not valid JSON. Details: ''"

definition failure_record :: "exn \<Rightarrow> json" where
  "failure_record e = JObj [(''error'', JStr (failure_prefix @ exn_str e))]"

text \<open>
  \<^verbatim>\<open>try: ... except Exception as e: ...\<close>: the handler runs on an exception of the body;
  what it raises itself would leave the function.
\<close>

definition try_except :: "exn + 'a \<Rightarrow> (exn \<Rightarrow> exn + 'a) \<Rightarrow> exn + 'a" where
  "try_except body handler = (case body of Inl e \<Rightarrow> handler e | Inr v \<Rightarrow> Inr v)"

text \<open>The body of the \<^verbatim>\<open>try\<close>: the call, the clean-up of the text, the decoding.\<close>

definition analysis_body :: "generative_model \<Rightarrow> decoder \<Rightarrow> string \<Rightarrow> image option \<Rightarrow> exn + json" where
  "analysis_body generate loads text_prompt img =
     (case generate (request_content text_prompt img) of
        Inl e \<Rightarrow> Inl e
      | Inr text \<Rightarrow> loads (strip_fences text))"

definition get_ai_analysis :: "generative_model \<Rightarrow> decoder \<Rightarrow> string \<Rightarrow> image option \<Rightarrow> exn + json" where
  "get_ai_analysis generate loads text_prompt img =
     try_except (analysis_body generate loads text_prompt img) (\<lambda>e. Inr (failure_record e))"

section \<open>The report\<close>

text \<open>
  What \<^verbatim>\<open>display_analysis_report\<close> puts on the page, call by call. A value interpolated
  into an f-string is kept as the value; icons, emoji and markup are left out, and so is the
  layout (\<^verbatim>\<open>st.columns\<close>, \<^verbatim>\<open>st.expander\<close>). The Streamlit calls themselves are
  output only.
\<close>

datatype widget =
    ErrorText string
  | ModelError string
  | Warning string
  | AnalysisError json
  | Balloons
  | Header string
  | Subheader string
  | GaugeChart json
  | SummaryMarkdown json
  | Info string
  | FlagError json json
  | Success string
  | InsightSuccess json

text \<open>
  \<^verbatim>\<open>"error" in x\<close>: a key of a dict, an element of a list, a substring of a string; any
  other operand raises \<^verbatim>\<open>TypeError\<close>.
\<close>

fun str_in :: "string \<Rightarrow> json \<Rightarrow> py_error + bool" where
  "str_in k (JObj kvs) = Inr (k \<in> set (map fst kvs))"
| "str_in k (JArr xs) = Inr (JStr k \<in> set xs)"
| "str_in k (JStr s) = Inr (sublist k s)"
| "str_in k _ = Inl TypeError"

text \<open>\<^verbatim>\<open>x[k]\<close> with a string \<open>k\<close>.\<close>

fun getitem :: "json \<Rightarrow> string \<Rightarrow> py_error + json" where
  "getitem (JObj kvs) k = (case map_of kvs k of Some v \<Rightarrow> Inr v | None \<Rightarrow> Inl KeyError)"
| "getitem _ k = Inl TypeError"

text \<open>\<^verbatim>\<open>d.get(k, default)\<close> on a dict.\<close>

definition dict_get :: "(string \<times> json) list \<Rightarrow> string \<Rightarrow> json \<Rightarrow> json" where
  "dict_get kvs k dflt = (case map_of kvs k of Some v \<Rightarrow> v | None \<Rightarrow> dflt)"

text \<open>\<^verbatim>\<open>if x:\<close>\<close>

fun truthy :: "json \<Rightarrow> bool" where
  "truthy JNull = False"
| "truthy (JBool b) = b"
| "truthy (JInt n) = (n \<noteq> 0)"
| "truthy (JFloat r) = (r \<noteq> 0)"
| "truthy (JStr s) = (s \<noteq> [])"
| "truthy (JArr xs) = (xs \<noteq> [])"
| "truthy (JObj kvs) = (kvs \<noteq> [])"

text \<open>
  \<^verbatim>\<open>for flag in x\<close>: the elements of a list, the keys of a dict, the characters of a
  string; anything else is not iterable.
\<close>

fun iterate :: "json \<Rightarrow> py_error + json list" where
  "iterate (JArr xs) = Inr xs"
| "iterate (JObj kvs) = Inr (map (\<lambda>kv. JStr (fst kv)) kvs)"
| "iterate (JStr s) = Inr (map (\<lambda>c. JStr [c]) s)"
| "iterate _ = Inl TypeError"

text \<open>
  The body of the loop over the red flags: a dict is read with defaults, a string becomes a
  general flag, and a flag that is neither takes no branch.
\<close>

fun flag_widgets :: "json \<Rightarrow> widget list" where
  "flag_widgets (JObj kvs) =
     [FlagError (dict_get kvs ''flag_type'' (JStr ''General Flag''))
                (dict_get kvs ''description'' (JStr ''No description provided.''))]"
| "flag_widgets (JStr s) = [FlagError (JStr ''General Flag'') (JStr s)]"
| "flag_widgets _ = []"

text \<open>
  \<^verbatim>\<open>go.Indicator(value=score)\<close>: Plotly validates the value as a number. \<^verbatim>\<open>None\<close>
  and a number pass (a \<^verbatim>\<open>bool\<close> is a number in Python); a string, a list or a dict
  raises \<^verbatim>\<open>ValueError\<close>.
\<close>

fun plotly_number :: "json \<Rightarrow> bool" where
  "plotly_number (JStr s) = False"
| "plotly_number (JArr xs) = False"
| "plotly_number (JObj kvs) = False"
| "plotly_number _ = True"

text \<open>
  \<^verbatim>\<open>create_gauge_chart\<close>: the figure is fixed but for the score it shows; building it
  raises when Plotly refuses the score.
\<close>

definition create_gauge_chart :: "json \<Rightarrow> py_error + widget" where
  "create_gauge_chart score = (if plotly_number score then Inr (GaugeChart score) else Inl ValueError)"

text \<open>The widgets before the red flags, once the chart is built, and the one after them.\<close>

definition report_head :: "(string \<times> json) list \<Rightarrow> widget \<Rightarrow> widget list" where
  "report_head kvs chart =
     [Balloons, Header ''Analysis Report'',
      chart,
      Subheader ''Quick Summary'',
      SummaryMarkdown (dict_get kvs ''summary'' (JStr ''No summary available.'')),
      Info [],
      Subheader ''Detected Red Flags'']"

definition report_tail :: "(string \<times> json) list \<Rightarrow> widget list" where
  "report_tail kvs =
     [InsightSuccess (dict_get kvs ''educational_insight'' (JStr ''No educational insight available.''))]"

text \<open>
  The part of \<^verbatim>\<open>display_analysis_report\<close> after the test for \<^verbatim>\<open>"error"\<close>. On a value
  that is not a dict the first \<^verbatim>\<open>.get\<close> raises, after the balloons and the header; on a
  dict whose score Plotly refuses, \<^verbatim>\<open>create_gauge_chart\<close> raises at the same place.
\<close>

fun report :: "json \<Rightarrow> widget list \<times> py_error option" where
  "report (JObj kvs) =
     (case create_gauge_chart (dict_get kvs ''credibility_score'' (JInt 0)) of
        Inl err \<Rightarrow> ([Balloons, Header ''Analysis Report''], Some err)
      | Inr chart \<Rightarrow>
          (let red_flags = dict_get kvs ''red_flags'' (JArr []) in
           if truthy red_flags then
             (case iterate red_flags of
                Inl err \<Rightarrow> (report_head kvs chart, Some err)
              | Inr flags \<Rightarrow>
                  (report_head kvs chart @ concat (map flag_widgets flags) @ report_tail kvs, None))
           else
             (report_head kvs chart @ [Success ''No significant red flags were detected.''] @
              report_tail kvs, None)))"
| "report _ = ([Balloons, Header ''Analysis Report''], Some AttributeError)"

text \<open>The widgets drawn, and the exception that ended the function, if any.\<close>

definition display_analysis_report :: "json \<Rightarrow> widget list \<times> py_error option" where
  "display_analysis_report analysis_result =
     (case str_in ''error'' analysis_result of
        Inl err \<Rightarrow> ([], Some err)
      | Inr True \<Rightarrow>
          (case getitem analysis_result ''error'' of
             Inl err \<Rightarrow> ([], Some err)
           | Inr v \<Rightarrow> ([AnalysisError v], None))
      | Inr False \<Rightarrow> report analysis_result)"

section \<open>Fetching a page\<close>

record http_response =
  status_code :: nat
  content :: string

text \<open>
  The library calls of \<^verbatim>\<open>get_text_from_url\<close>: \<^verbatim>\<open>requests.get\<close> (a transport failure
  or a timeout raises), \<^verbatim>\<open>response.raise_for_status()\<close> (raises on a status the library
  takes for an error), and \<open>paragraph_texts\<close> for
  \<^verbatim>\<open>[p.get_text() for p in BeautifulSoup(content, 'html.parser').find_all('p')]\<close>.
\<close>

record web =
  requests_get :: "string \<Rightarrow> exn + http_response"
  raise_for_status :: "http_response \<Rightarrow> exn option"
  paragraph_texts :: "string \<Rightarrow> exn + string list"

definition fetch_body :: "web \<Rightarrow> string \<Rightarrow> exn + string" where
  "fetch_body w url =
     (case requests_get w url of
        Inl e \<Rightarrow> Inl e
      | Inr response \<Rightarrow>
          (case raise_for_status w response of
             Some e \<Rightarrow> Inl e
           | None \<Rightarrow>
               (case paragraph_texts w (content response) of
                  Inl e \<Rightarrow> Inl e
                | Inr paragraphs \<Rightarrow> Inr (join '' '' paragraphs))))"

definition get_text_from_url :: "web \<Rightarrow> string \<Rightarrow> exn + string" where
  "get_text_from_url w url =
     try_except (fetch_body w url) (\<lambda>e. Inr (''Error fetching URL: '' @ exn_str e))"

section \<open>The script\<close>

text \<open>
  One run of the script: what it drew, which URLs it fetched, with which arguments it called
  \<^verbatim>\<open>get_ai_analysis\<close>, and the exception that ended the run, if one did.
\<close>

record outcome =
  screen :: "widget list"
  fetched :: "string list"
  analysed :: "(string \<times> image option) list"
  uncaught :: "(exn + py_error) option"

text \<open>
  \<^verbatim>\<open>analysis = get_ai_analysis(...)\<close> and \<^verbatim>\<open>display_analysis_report(analysis)\<close>, the two
  lines that end each of the three scans.
\<close>

definition analyse_and_display :: "generative_model \<Rightarrow> decoder \<Rightarrow> string \<Rightarrow> image option \<Rightarrow> outcome" where
  "analyse_and_display generate loads text_prompt img =
     (case get_ai_analysis generate loads text_prompt img of
        Inl e \<Rightarrow> \<lparr>screen = [], fetched = [], analysed = [(text_prompt, img)], uncaught = Some (Inl e)\<rparr>
      | Inr analysis \<Rightarrow>
          \<lparr>screen = fst (display_analysis_report analysis), fetched = [],
           analysed = [(text_prompt, img)],
           uncaught = map_option Inr (snd (display_analysis_report analysis))\<rparr>)"

definition text_scan :: "generative_model \<Rightarrow> decoder \<Rightarrow> string \<Rightarrow> outcome" where
  "text_scan generate loads text_input =
     (if text_input \<noteq> [] then analyse_and_display generate loads text_input None
      else \<lparr>screen = [Warning ''Please provide text for analysis.''], fetched = [], analysed = [],
            uncaught = None\<rparr>)"

definition url_scan :: "web \<Rightarrow> generative_model \<Rightarrow> decoder \<Rightarrow> string \<Rightarrow> outcome" where
  "url_scan w generate loads url_input =
     (if url_input \<noteq> [] then
        (case get_text_from_url w url_input of
           Inl e \<Rightarrow> \<lparr>screen = [], fetched = [url_input], analysed = [], uncaught = Some (Inl e)\<rparr>
         | Inr scraped_text \<Rightarrow>
             if sublist ''Error'' scraped_text then
               \<lparr>screen = [ErrorText scraped_text], fetched = [url_input], analysed = [],
                uncaught = None\<rparr>
             else (analyse_and_display generate loads scraped_text None)\<lparr>fetched := [url_input]\<rparr>)
      else \<lparr>screen = [Warning ''Please provide a URL for analysis.''], fetched = [], analysed = [],
            uncaught = None\<rparr>)"

text \<open>\<open>image_open\<close> is \<^verbatim>\<open>Image.open\<close>, which raises on a file it cannot read.\<close>

definition image_scan :: "(string \<Rightarrow> exn + image) \<Rightarrow> generative_model \<Rightarrow> decoder \<Rightarrow> string \<Rightarrow> outcome" where
  "image_scan image_open generate loads uploaded_image =
     (case image_open uploaded_image of
        Inl e \<Rightarrow> \<lparr>screen = [], fetched = [], analysed = [], uncaught = Some (Inl e)\<rparr>
      | Inr img \<Rightarrow>
          analyse_and_display generate loads ''Analyze the text and context in this image.'' (Some img))"

subsection \<open>Start-up\<close>

text \<open>
  The library calls of the start-up block: \<^verbatim>\<open>load_dotenv()\<close>, \<^verbatim>\<open>os.getenv\<close>,
  \<^verbatim>\<open>genai.configure(api_key=...)\<close> and the constructor \<^verbatim>\<open>genai.GenerativeModel\<close>.
\<close>

record sys =
  load_dotenv :: "exn option"
  getenv :: "string \<Rightarrow> string option"
  configure :: "string option \<Rightarrow> exn option"
  GenerativeModel :: "string \<Rightarrow> exn + generative_model"

definition startup_body :: "sys \<Rightarrow> exn + generative_model" where
  "startup_body s =
     (case load_dotenv s of
        Some e \<Rightarrow> Inl e
      | None \<Rightarrow>
          (case configure s (getenv s ''GOOGLE_API_KEY'') of
             Some e \<Rightarrow> Inl e
           | None \<Rightarrow> GenerativeModel s ''gemini-1.5-flash''))"

text \<open>What the user did before this run of the script: the button pressed, with its input.\<close>

datatype action =
    NoButton
  | TextButton string
  | UrlButton string
  | ImageButton string

definition handle_action :: "web \<Rightarrow> (string \<Rightarrow> exn + image) \<Rightarrow> decoder \<Rightarrow> generative_model \<Rightarrow> action \<Rightarrow> outcome" where
  "handle_action w image_open loads model a =
     (case a of
        NoButton \<Rightarrow> \<lparr>screen = [], fetched = [], analysed = [], uncaught = None\<rparr>
      | TextButton text_input \<Rightarrow> text_scan model loads text_input
      | UrlButton url_input \<Rightarrow> url_scan w model loads url_input
      | ImageButton uploaded_image \<Rightarrow> image_scan image_open model loads uploaded_image)"

text \<open>
  The script from top to bottom. When the start-up block raises, the handler shows the error
  and \<^verbatim>\<open>st.stop()\<close> ends the run: nothing below it is executed.
\<close>

definition run_script :: "sys \<Rightarrow> web \<Rightarrow> (string \<Rightarrow> exn + image) \<Rightarrow> decoder \<Rightarrow> action \<Rightarrow> outcome" where
  "run_script s w image_open loads a =
     (case startup_body s of
        Inl e \<Rightarrow> \<lparr>screen = [ModelError (exn_str e)], fetched = [], analysed = [], uncaught = None\<rparr>
      | Inr model \<Rightarrow> handle_action w image_open loads model a)"

section \<open>A reference decoder\<close>

text \<open>
  The decoder is a library function, and the properties below are proved for every decoder.
  To run the pipeline on a given response text, \<open>json_loads\<close> decodes the JSON grammar the
  way \<^verbatim>\<open>json.loads\<close> does with its default arguments, over 8-bit characters: one pass
  over the text, a scanner that feeds a pushdown parser. A key that comes twice keeps its
  place and takes the later value, as in a dict. Three things are left out: the text of the
  error message, the literals \<^verbatim>\<open>NaN\<close> and \<^verbatim>\<open>Infinity\<close>, and \<^verbatim>\<open>\u\<close> escapes above
  \<^verbatim>\<open>00FF\<close> (all three are refused here).
\<close>

datatype token = TLBrace | TRBrace | TLBrack | TRBrack | TColon | TComma | TScalar json

text \<open>What the parser expects next, and the containers that are still open.\<close>

datatype mode = Val | ValOrClose | Key | KeyOrClose | Colon | Next | Done json

datatype frame =
    FArr "json list"
  | FObj "(string \<times> json) list"
  | FKey "(string \<times> json) list" string

fun complete :: "json \<Rightarrow> frame list \<Rightarrow> (mode \<times> frame list) option" where
  "complete v [] = Some (Done v, [])"
| "complete v (FArr xs # st) = Some (Next, FArr (v # xs) # st)"
| "complete v (FKey kvs k # st) = Some (Next, FObj (AList.update k v kvs) # st)"
| "complete v (FObj kvs # st) = None"

definition open_value :: "frame list \<Rightarrow> token \<Rightarrow> (mode \<times> frame list) option" where
  "open_value st t =
     (case t of
        TScalar v \<Rightarrow> complete v st
      | TLBrack \<Rightarrow> Some (ValOrClose, FArr [] # st)
      | TLBrace \<Rightarrow> Some (KeyOrClose, FObj [] # st)
      | _ \<Rightarrow> None)"

definition open_key :: "frame list \<Rightarrow> token \<Rightarrow> (mode \<times> frame list) option" where
  "open_key st t =
     (case (st, t) of
        (FObj kvs # st', TScalar (JStr k)) \<Rightarrow> Some (Colon, FKey kvs k # st')
      | _ \<Rightarrow> None)"

definition close_frame :: "frame list \<Rightarrow> token \<Rightarrow> (mode \<times> frame list) option" where
  "close_frame st t =
     (case (st, t) of
        (FArr xs # st', TRBrack) \<Rightarrow> complete (JArr (rev xs)) st'
      | (FObj kvs # st', TRBrace) \<Rightarrow> complete (JObj kvs) st'
      | _ \<Rightarrow> None)"

definition parse_step :: "mode \<Rightarrow> frame list \<Rightarrow> token \<Rightarrow> (mode \<times> frame list) option" where
  "parse_step m st t =
     (case m of
        Val \<Rightarrow> open_value st t
      | ValOrClose \<Rightarrow> (if t = TRBrack then close_frame st t else open_value st t)
      | Key \<Rightarrow> open_key st t
      | KeyOrClose \<Rightarrow> (if t = TRBrace then close_frame st t else open_key st t)
      | Colon \<Rightarrow> (if t = TColon then Some (Val, st) else None)
      | Next \<Rightarrow>
          (case (st, t) of
             (FArr xs # st', TComma) \<Rightarrow> Some (Val, st)
           | (FObj kvs # st', TComma) \<Rightarrow> Some (Key, st)
           | _ \<Rightarrow> close_frame st t)
      | Done v \<Rightarrow> None)"

subsection \<open>The scanner\<close>

definition json_ws :: "char \<Rightarrow> bool" where
  "json_ws c = (c \<in> set [CHR 0x20, CHR 0x09, CHR 0x0A, CHR 0x0D])"

definition is_digit :: "char \<Rightarrow> bool" where
  "is_digit c = (c \<in> set ''0123456789'')"

definition digit_val :: "char \<Rightarrow> nat" where
  "digit_val c = of_char c - 48"

definition digits_val :: "string \<Rightarrow> nat" where
  "digits_val ds = foldl (\<lambda>n c. 10 * n + digit_val c) 0 ds"

definition hex_val :: "char \<Rightarrow> nat option" where
  "hex_val c =
     (if is_digit c then Some (digit_val c)
      else if c \<in> set ''abcdef'' then Some (of_char c - 87)
      else if c \<in> set ''ABCDEF'' then Some (of_char c - 55)
      else None)"

definition simple_escape :: "char \<Rightarrow> char option" where
  "simple_escape c =
     (if c = CHR 0x22 \<or> c = CHR 0x5C \<or> c = CHR ''/'' then Some c
      else if c = CHR ''b'' then Some (CHR 0x08)
      else if c = CHR ''f'' then Some (CHR 0x0C)
      else if c = CHR ''n'' then Some (CHR 0x0A)
      else if c = CHR ''r'' then Some (CHR 0x0D)
      else if c = CHR ''t'' then Some (CHR 0x09)
      else None)"

text \<open>
  The phases of a number,
  \<^verbatim>\<open>(-?(?:0|[1-9][0-9]*))(\.[0-9]+)?([eE][-+]?[0-9]+)?\<close>: a character continues the
  number, ends it, or cannot follow (a fraction or an exponent that is begun must be
  completed: what the library would leave behind cannot start another token).
\<close>

datatype nphase = Minus | Zero | IntDigits | Dot | FracDigits | Exp | ExpSign | ExpDigits

datatype nstep = Continue nphase | Ends | Bad

definition is_e :: "char \<Rightarrow> bool" where
  "is_e c = (c = CHR ''e'' \<or> c = CHR ''E'')"

fun number_next :: "nphase \<Rightarrow> char \<Rightarrow> nstep" where
  "number_next Minus c =
     (if c = CHR ''0'' then Continue Zero else if is_digit c then Continue IntDigits else Bad)"
| "number_next Zero c =
     (if c = CHR ''.'' then Continue Dot else if is_e c then Continue Exp else Ends)"
| "number_next IntDigits c =
     (if is_digit c then Continue IntDigits else if c = CHR ''.'' then Continue Dot
      else if is_e c then Continue Exp else Ends)"
| "number_next Dot c = (if is_digit c then Continue FracDigits else Bad)"
| "number_next FracDigits c =
     (if is_digit c then Continue FracDigits else if is_e c then Continue Exp else Ends)"
| "number_next Exp c =
     (if c = CHR ''+'' \<or> c = CHR ''-'' then Continue ExpSign
      else if is_digit c then Continue ExpDigits else Bad)"
| "number_next ExpSign c = (if is_digit c then Continue ExpDigits else Bad)"
| "number_next ExpDigits c = (if is_digit c then Continue ExpDigits else Ends)"

text \<open>
  The value of a number's text: an \<^verbatim>\<open>int\<close> when it has neither fraction nor exponent,
  a float otherwise.
\<close>

definition number_value :: "string \<Rightarrow> json" where
  "number_value lx =
     (let neg = (take 1 lx = ''-'');
          body = (if neg then drop 1 lx else lx);
          ip = takeWhile is_digit body;
          r1 = dropWhile is_digit body;
          has_frac = (take 1 r1 = ''.'');
          fp = (if has_frac then takeWhile is_digit (drop 1 r1) else []);
          r2 = (if has_frac then dropWhile is_digit (drop 1 r1) else r1);
          ex = (if r2 = [] then 0
                else if take 1 (drop 1 r2) = ''-'' then - int (digits_val (drop 2 r2))
                else if take 1 (drop 1 r2) = ''+'' then int (digits_val (drop 2 r2))
                else int (digits_val (drop 1 r2)));
          mant = real (digits_val ip) + real (digits_val fp) / 10 ^ length fp;
          scaled = (if 0 \<le> ex then mant * 10 ^ nat ex else mant / 10 ^ nat (- ex))
      in if r1 = [] then JInt (if neg then - int (digits_val ip) else int (digits_val ip))
         else JFloat (if neg then - scaled else scaled))"

datatype lex =
    Ready
  | InString string
  | InEscape string
  | InUnicode string "nat list"
  | InNumber nphase string
  | InLiteral string json

datatype machine = Failed | Running lex mode "frame list"

definition push :: "token \<Rightarrow> mode \<Rightarrow> frame list \<Rightarrow> machine" where
  "push t m st = (case parse_step m st t of None \<Rightarrow> Failed | Some (m', st') \<Rightarrow> Running Ready m' st')"

text \<open>A character between two tokens.\<close>

definition ready :: "mode \<Rightarrow> frame list \<Rightarrow> char \<Rightarrow> machine" where
  "ready m st c =
     (if json_ws c then Running Ready m st
      else if c = CHR ''{'' then push TLBrace m st
      else if c = CHR ''}'' then push TRBrace m st
      else if c = CHR ''['' then push TLBrack m st
      else if c = CHR '']'' then push TRBrack m st
      else if c = CHR '':'' then push TColon m st
      else if c = CHR '','' then push TComma m st
      else if c = CHR 0x22 then Running (InString []) m st
      else if c = CHR ''-'' then Running (InNumber Minus [c]) m st
      else if c = CHR ''0'' then Running (InNumber Zero [c]) m st
      else if is_digit c then Running (InNumber IntDigits [c]) m st
      else if c = CHR ''t'' then Running (InLiteral ''rue'' (JBool True)) m st
      else if c = CHR ''f'' then Running (InLiteral ''alse'' (JBool False)) m st
      else if c = CHR ''n'' then Running (InLiteral ''ull'' JNull) m st
      else Failed)"

text \<open>The texts under construction are kept reversed.\<close>

fun feed :: "machine \<Rightarrow> char \<Rightarrow> machine" where
  "feed Failed c = Failed"
| "feed (Running Ready m st) c = ready m st c"
| "feed (Running (InString acc) m st) c =
     (if c = CHR 0x22 then push (TScalar (JStr (rev acc))) m st
      else if c = CHR 0x5C then Running (InEscape acc) m st
      else if (of_char c :: nat) < 32 then Failed
      else Running (InString (c # acc)) m st)"
| "feed (Running (InEscape acc) m st) c =
     (if c = CHR ''u'' then Running (InUnicode acc []) m st
      else (case simple_escape c of
              None \<Rightarrow> Failed
            | Some ch \<Rightarrow> Running (InString (ch # acc)) m st))"
| "feed (Running (InUnicode acc hs) m st) c =
     (case hex_val c of
        None \<Rightarrow> Failed
      | Some h \<Rightarrow>
          if length hs < 3 then Running (InUnicode acc (hs @ [h])) m st
          else (let n = foldl (\<lambda>n h. 16 * n + h) 0 (hs @ [h])
                in if n < 256 then Running (InString (char_of n # acc)) m st else Failed))"
| "feed (Running (InNumber ph lx) m st) c =
     (case number_next ph c of
        Continue ph' \<Rightarrow> Running (InNumber ph' (c # lx)) m st
      | Bad \<Rightarrow> Failed
      | Ends \<Rightarrow>
          (case push (TScalar (number_value (rev lx))) m st of
             Running l m' st' \<Rightarrow> ready m' st' c
           | Failed \<Rightarrow> Failed))"
| "feed (Running (InLiteral rest v) m st) c =
     (case rest of
        [] \<Rightarrow> Failed
      | x # xs \<Rightarrow>
          if c \<noteq> x then Failed
          else if xs = [] then push (TScalar v) m st
          else Running (InLiteral xs v) m st)"

text \<open>
  The end of the text ends a number as a blank does; the text is a JSON text when the
  scanner is then between tokens and the parser has its one value.
\<close>

definition finish :: "machine \<Rightarrow> exn + json" where
  "finish m =
     (case feed m (CHR '' '') of
        Running Ready (Done v) [] \<Rightarrow> Inr v
      | _ \<Rightarrow> Inl (Raised ''JSONDecodeError''))"

definition json_loads :: decoder where
  "json_loads s = finish (foldl feed (Running Ready Val []) s)"

text \<open>In the states the scanner reaches, what is left of a literal holds no white space.\<close>

fun literal_ok :: "machine \<Rightarrow> bool" where
  "literal_ok (Running (InLiteral rest v) m st) = (\<forall>c\<in>set rest. \<not> json_ws c)"
| "literal_ok _ = True"

text \<open>
  \<^verbatim>\<open>raise_for_status\<close> as the HTTP library documents it: an error for a status from 400
  to 599.
\<close>

definition raise_for_status_4xx_5xx :: "http_response \<Rightarrow> exn option" where
  "raise_for_status_4xx_5xx response =
     (if 400 \<le> status_code response \<and> status_code response < 600
      then Some (Raised ''HTTPError'') else None)"

text \<open>
  The model library as it behaves at start-up: \<^verbatim>\<open>genai.configure\<close> stores the key it is
  given, \<^verbatim>\<open>None\<close> included, and the constructor stores the model's name; neither raises.
  Without a key it is the call of \<^verbatim>\<open>generate_content\<close> that raises.
\<close>

definition genai_configure :: "string option \<Rightarrow> exn option" where
  "genai_configure api_key = None"

definition genai_GenerativeModel :: "string option \<Rightarrow> (part list \<Rightarrow> exn + string) \<Rightarrow> string \<Rightarrow> exn + generative_model" where
  "genai_GenerativeModel api_key service name =
     Inr (\<lambda>request. case api_key of None \<Rightarrow> Inl (Raised ''No API_KEY found'') | Some k \<Rightarrow> service request)"

section \<open>Reading a result\<close>

text \<open>
  The two kinds of result, told apart as \<^verbatim>\<open>display_analysis_report\<close> tells them apart:
  a failure record is a dict with the key \<^verbatim>\<open>"error"\<close>, a success record a dict without it.
\<close>

fun is_dict :: "json \<Rightarrow> bool" where
  "is_dict (JObj kvs) = True"
| "is_dict _ = False"

fun is_failure_record :: "json \<Rightarrow> bool" where
  "is_failure_record (JObj kvs) = (''error'' \<in> set (map fst kvs))"
| "is_failure_record _ = False"

fun is_success_record :: "json \<Rightarrow> bool" where
  "is_success_record (JObj kvs) = (''error'' \<notin> set (map fst kvs))"
| "is_success_record _ = False"

text \<open>The value a decoder returned, if it returned one.\<close>

definition parsed_value :: "exn + json \<Rightarrow> json option" where
  "parsed_value r = (case r of Inl e \<Rightarrow> None | Inr v \<Rightarrow> Some v)"

text \<open>A JSON number, as the schema asks of \<^verbatim>\<open>credibility_score\<close>.\<close>

fun is_number :: "json \<Rightarrow> bool" where
  "is_number (JInt n) = True"
| "is_number (JFloat r) = True"
| "is_number _ = False"

fun is_str :: "json \<Rightarrow> bool" where
  "is_str (JStr s) = True"
| "is_str _ = False"

text \<open>The red flags a page shows, as (flag type, description), in the order drawn.\<close>

fun shown_flag :: "widget \<Rightarrow> (json \<times> json) list" where
  "shown_flag (FlagError flag_type description) = [(flag_type, description)]"
| "shown_flag _ = []"

definition red_flags_shown :: "widget list \<Rightarrow> (json \<times> json) list" where
  "red_flags_shown ws = concat (map shown_flag ws)"

section \<open>Properties\<close>

lemma get_ai_analysis_returns:
  "\<exists>v. get_ai_analysis generate loads text_prompt img = Inr v"
  by (simp add: get_ai_analysis_def try_except_def split: sum.split)

subsection \<open>The pipeline returns\<close>

lemma analysis_body_cases:
  "analysis_body generate loads text_prompt img = Inl e \<longleftrightarrow>
     generate (request_content text_prompt img) = Inl e \<or>
     (\<exists>text. generate (request_content text_prompt img) = Inr text \<and>
        loads (strip_fences text) = Inl e)"
  by (auto simp: analysis_body_def split: sum.splits)

lemma get_ai_analysis_failure:
  "analysis_body generate loads text_prompt img = Inl e \<Longrightarrow>
   get_ai_analysis generate loads text_prompt img = Inr (failure_record e)"
  by (simp add: get_ai_analysis_def try_except_def)

lemma get_ai_analysis_value:
  "analysis_body generate loads text_prompt img = Inr v \<Longrightarrow>
   get_ai_analysis generate loads text_prompt img = Inr v"
  by (simp add: get_ai_analysis_def try_except_def)

lemma failure_record_is_failure:
  "is_failure_record (failure_record e)" "\<not> is_success_record (failure_record e)"
  by (simp_all add: failure_record_def)

lemma dict_one_record: "is_dict v \<Longrightarrow> is_success_record v \<noteq> is_failure_record v"
  by (cases v) simp_all

text \<open>
  C1, as the code has it. For every request, \<^verbatim>\<open>get_ai_analysis\<close> returns a value and
  raises nothing; when the body of its \<^verbatim>\<open>try\<close> fails (the call or the decoding), or
  decodes the response to a JSON object, the value returned is exactly one of a success
  record and a failure record.
\<close>

theorem get_ai_analysis_one_record:
  assumes "\<forall>v. analysis_body generate loads text_prompt img = Inr v \<longrightarrow> is_dict v"
  shows "\<exists>v. get_ai_analysis generate loads text_prompt img = Inr v \<and>
             (is_success_record v \<noteq> is_failure_record v)"
proof (cases "analysis_body generate loads text_prompt img")
  case (Inl e)
  then have "get_ai_analysis generate loads text_prompt img = Inr (failure_record e)"
    by (rule get_ai_analysis_failure)
  then show ?thesis
    using failure_record_is_failure by auto
next
  case (Inr v)
  with assms have "is_dict v" by simp
  moreover from Inr have "get_ai_analysis generate loads text_prompt img = Inr v"
    by (rule get_ai_analysis_value)
  ultimately show ?thesis
    using dict_one_record by auto
qed

lemma body_unreachable_model:
  "analysis_body (\<lambda>request. Inl (Raised ''503 Service Unavailable'')) json_loads
     ''Is this true?'' None = Inl (Raised ''503 Service Unavailable'')"
  by (simp add: analysis_body_def)

lemma body_object_response:
  "analysis_body (\<lambda>request. Inr ''```json\<newline>{\"summary\": \"Likely a scam\"}\<newline>```'') json_loads
     ''Is this true?'' None = Inr (JObj [(''summary'', JStr ''Likely a scam'')])"
  unfolding analysis_body_def by code_simp

theorem get_ai_analysis_one_record_witness:
  "(\<exists>v. get_ai_analysis (\<lambda>request. Inl (Raised ''503 Service Unavailable'')) json_loads
          ''Is this true?'' None = Inr v \<and>
        (is_success_record v \<noteq> is_failure_record v)) \<and>
   (\<exists>v. get_ai_analysis (\<lambda>request. Inr ''```json\<newline>{\"summary\": \"Likely a scam\"}\<newline>```'')
          json_loads ''Is this true?'' None = Inr v \<and>
        (is_success_record v \<noteq> is_failure_record v))"
proof
  show "\<exists>v. get_ai_analysis (\<lambda>request. Inl (Raised ''503 Service Unavailable'')) json_loads
          ''Is this true?'' None = Inr v \<and> (is_success_record v \<noteq> is_failure_record v)"
    by (rule get_ai_analysis_one_record) (simp add: body_unreachable_model)
  show "\<exists>v. get_ai_analysis (\<lambda>request. Inr ''```json\<newline>{\"summary\": \"Likely a scam\"}\<newline>```'')
          json_loads ''Is this true?'' None = Inr v \<and> (is_success_record v \<noteq> is_failure_record v)"
    by (rule get_ai_analysis_one_record) (simp add: body_object_response)
qed

text \<open>
  C1 as it is stated fails: a response that is valid JSON but not an object is returned as
  it is. The response \<^verbatim>\<open>42\<close> makes \<^verbatim>\<open>get_ai_analysis\<close> return the number 42, which is
  neither record, and \<^verbatim>\<open>"error" in 42\<close> then raises in \<^verbatim>\<open>display_analysis_report\<close>.
\<close>

theorem get_ai_analysis_number_counterexample:
  "get_ai_analysis (\<lambda>request. Inr ''42'') json_loads ''Is this true?'' None = Inr (JInt 42) \<and>
   \<not> is_success_record (JInt 42) \<and> \<not> is_failure_record (JInt 42) \<and>
   display_analysis_report (JInt 42) = ([], Some TypeError)"
  unfolding get_ai_analysis_def analysis_body_def by code_simp

subsection \<open>A failure becomes a failure record\<close>

text \<open>
  C2. When the model call raises, or the decoder raises on the cleaned response, no
  exception leaves \<^verbatim>\<open>get_ai_analysis\<close>: it returns the dict whose only key is
  \<^verbatim>\<open>"error"\<close>, and the message under it is the fixed text, which begins with
  \<^verbatim>\<open>AI analysis failed\<close>, followed by \<^verbatim>\<open>str(e)\<close>.
\<close>

theorem failure_yields_failure_record:
  assumes "generate (request_content text_prompt img) = Inl e \<or>
           (\<exists>text. generate (request_content text_prompt img) = Inr text \<and>
              loads (strip_fences text) = Inl e)"
  shows "\<exists>msg. get_ai_analysis generate loads text_prompt img = Inr (JObj [(''error'', JStr msg)]) \<and>
           msg = ''AI analysis failed. The model response was not valid JSON. Details: '' @ exn_str e \<and>
           prefix ''AI analysis failed'' msg \<and> suffix (exn_str e) msg \<and>
           is_failure_record (JObj [(''error'', JStr msg)])"
proof -
  from assms have "analysis_body generate loads text_prompt img = Inl e"
    by (simp add: analysis_body_cases)
  then have "get_ai_analysis generate loads text_prompt img = Inr (failure_record e)"
    by (rule get_ai_analysis_failure)
  then show ?thesis
    by (simp add: failure_record_def failure_prefix_def suffix_def)
qed

lemma truncated_response_rejected:
  "json_loads (strip_fences ''{\"credibility_score\": 2, \"summ'') = Inl (Raised ''JSONDecodeError'')"
  by code_simp

theorem failure_yields_failure_record_witness:
  "(\<exists>msg. get_ai_analysis (\<lambda>request. Inl (Raised ''429 Quota exceeded'')) json_loads
            ''Is this true?'' None = Inr (JObj [(''error'', JStr msg)]) \<and>
          msg = ''AI analysis failed. The model response was not valid JSON. Details: 429 Quota exceeded'') \<and>
   (\<exists>msg. get_ai_analysis (\<lambda>request. Inr ''{\"credibility_score\": 2, \"summ'') json_loads
            ''Is this true?'' None = Inr (JObj [(''error'', JStr msg)]) \<and>
          msg = ''AI analysis failed. The model response was not valid JSON. Details: JSONDecodeError'')"
proof
  have "(\<lambda>request. Inl (Raised ''429 Quota exceeded'') :: exn + string)
          (request_content ''Is this true?'' None) = Inl (Raised ''429 Quota exceeded'')"
    by simp
  then show "\<exists>msg. get_ai_analysis (\<lambda>request. Inl (Raised ''429 Quota exceeded'')) json_loads
            ''Is this true?'' None = Inr (JObj [(''error'', JStr msg)]) \<and>
          msg = ''AI analysis failed. The model response was not valid JSON. Details: 429 Quota exceeded''"
    using failure_yields_failure_record
      [of "\<lambda>request. Inl (Raised ''429 Quota exceeded'')" "''Is this true?''" None
          "Raised ''429 Quota exceeded''" json_loads]
    by simp
  show "\<exists>msg. get_ai_analysis (\<lambda>request. Inr ''{\"credibility_score\": 2, \"summ'') json_loads
            ''Is this true?'' None = Inr (JObj [(''error'', JStr msg)]) \<and>
          msg = ''AI analysis failed. The model response was not valid JSON. Details: JSONDecodeError''"
    using failure_yields_failure_record
      [of "\<lambda>request. Inr ''{\"credibility_score\": 2, \"summ''" "''Is this true?''" None
          "Raised ''JSONDecodeError''" json_loads]
      truncated_response_rejected
    by simp
qed

subsection \<open>The report of a dict\<close>

declare report.simps [simp del]

lemma display_without_error:
  "''error'' \<notin> set (map fst kvs) \<Longrightarrow> display_analysis_report (JObj kvs) = report (JObj kvs)"
  by (simp add: display_analysis_report_def)

lemma display_with_error:
  assumes "''error'' \<in> set (map fst kvs)"
  shows "\<exists>v. map_of kvs ''error'' = Some v \<and>
             display_analysis_report (JObj kvs) = ([AnalysisError v], None)"
proof -
  from assms obtain v where "map_of kvs ''error'' = Some v"
    by (metis (no_types) list.set_map map_of_eq_None_iff not_Some_eq)
  with assms show ?thesis
    by (simp add: display_analysis_report_def)
qed

lemma chart_built:
  assumes "\<forall>v. map_of kvs ''credibility_score'' = Some v \<longrightarrow> plotly_number v"
  shows "create_gauge_chart (dict_get kvs ''credibility_score'' (JInt 0)) =
           Inr (GaugeChart (dict_get kvs ''credibility_score'' (JInt 0)))"
  using assms by (simp add: create_gauge_chart_def dict_get_def split: option.split)

lemma chart_refused:
  assumes "map_of kvs ''credibility_score'' = Some v" "\<not> plotly_number v"
  shows "report (JObj kvs) = ([Balloons, Header ''Analysis Report''], Some ValueError)"
  using assms by (simp add: report.simps create_gauge_chart_def dict_get_def)

lemma report_without_red_flags:
  assumes "\<forall>v. map_of kvs ''credibility_score'' = Some v \<longrightarrow> plotly_number v"
      and "map_of kvs ''red_flags'' = None"
  shows "report (JObj kvs) =
     (report_head kvs (GaugeChart (dict_get kvs ''credibility_score'' (JInt 0))) @
      [Success ''No significant red flags were detected.''] @ report_tail kvs, None)"
  unfolding report.simps chart_built [OF assms(1)] using assms(2) by (simp add: dict_get_def)

lemma report_with_list:
  assumes "\<forall>v. map_of kvs ''credibility_score'' = Some v \<longrightarrow> plotly_number v"
      and "map_of kvs ''red_flags'' = Some (JArr flags)"
  shows "report (JObj kvs) =
     (report_head kvs (GaugeChart (dict_get kvs ''credibility_score'' (JInt 0))) @
      (if flags = [] then [Success ''No significant red flags were detected.'']
       else concat (map flag_widgets flags)) @
      report_tail kvs, None)"
  unfolding report.simps chart_built [OF assms(1)] using assms(2) by (simp add: dict_get_def)

lemma report_begins: "prefix [Balloons, Header ''Analysis Report''] (fst (report v))"
  by (cases v) (simp_all add: report.simps report_head_def Let_def split: sum.split)

lemma report_begins_with_head:
  assumes "\<forall>v. map_of kvs ''credibility_score'' = Some v \<longrightarrow> plotly_number v"
  shows "prefix (report_head kvs (GaugeChart (dict_get kvs ''credibility_score'' (JInt 0))))
           (fst (report (JObj kvs)))"
  unfolding report.simps chart_built [OF assms] by (simp add: Let_def split: sum.split)

lemma report_ends_with_tail:
  "snd (report (JObj kvs)) = None \<Longrightarrow> suffix (report_tail kvs) (fst (report (JObj kvs)))"
  by (auto simp: report.simps Let_def suffix_def split: sum.splits if_splits)

lemma red_flags_shown_append [simp]:
  "red_flags_shown (xs @ ys) = red_flags_shown xs @ red_flags_shown ys"
  by (simp add: red_flags_shown_def)

lemma red_flags_shown_Nil [simp]: "red_flags_shown [] = []"
  by (simp add: red_flags_shown_def)

lemma red_flags_shown_furniture [simp]:
  "red_flags_shown (report_head kvs (GaugeChart score)) = []" "red_flags_shown (report_tail kvs) = []"
  "red_flags_shown (Success note # ws) = red_flags_shown ws"
  by (simp_all add: red_flags_shown_def report_head_def report_tail_def)

lemma shown_flag_widgets_strings:
  "red_flags_shown (concat (map flag_widgets (map JStr strs))) =
   map (\<lambda>s. (JStr ''General Flag'', JStr s)) strs"
  by (induction strs) (simp_all add: red_flags_shown_def)

text \<open>
  C3, as the code has it. Take a response that decodes to a JSON object without the key
  \<^verbatim>\<open>"error"\<close> and whose \<^verbatim>\<open>credibility_score\<close>, when it has one, is a value the gauge
  accepts (a number, a boolean or null). Its report starts as a success report in which a
  missing \<^verbatim>\<open>credibility_score\<close> is 0 and a missing \<^verbatim>\<open>summary\<close> is the fixed text; when
  \<^verbatim>\<open>red_flags\<close> is missing, the whole report is drawn without an exception, with no red
  flag and the note that none was detected; and a report that is drawn to its end ends with
  the insight, the fixed text when \<^verbatim>\<open>educational_insight\<close> is missing.
\<close>

theorem missing_fields_take_defaults:
  assumes "''error'' \<notin> set (map fst kvs)"
      and "\<forall>v. map_of kvs ''credibility_score'' = Some v \<longrightarrow> plotly_number v"
  shows "take 7 (fst (display_analysis_report (JObj kvs))) =
           [Balloons, Header ''Analysis Report'',
            GaugeChart (case map_of kvs ''credibility_score'' of Some v \<Rightarrow> v | None \<Rightarrow> JInt 0),
            Subheader ''Quick Summary'',
            SummaryMarkdown
              (case map_of kvs ''summary'' of Some v \<Rightarrow> v | None \<Rightarrow> JStr ''No summary available.''),
            Info [], Subheader ''Detected Red Flags''] \<and>
         (map_of kvs ''red_flags'' = None \<longrightarrow>
            snd (display_analysis_report (JObj kvs)) = None \<and>
            red_flags_shown (fst (display_analysis_report (JObj kvs))) = [] \<and>
            drop 7 (fst (display_analysis_report (JObj kvs))) =
              [Success ''No significant red flags were detected.'',
               InsightSuccess
                 (case map_of kvs ''educational_insight'' of
                    Some v \<Rightarrow> v | None \<Rightarrow> JStr ''No educational insight available.'')]) \<and>
         (snd (display_analysis_report (JObj kvs)) = None \<longrightarrow>
            last (fst (display_analysis_report (JObj kvs))) =
              InsightSuccess
                (case map_of kvs ''educational_insight'' of
                   Some v \<Rightarrow> v | None \<Rightarrow> JStr ''No educational insight available.''))"
proof -
  let ?chart = "GaugeChart (dict_get kvs ''credibility_score'' (JInt 0))"
  have d: "display_analysis_report (JObj kvs) = report (JObj kvs)"
    using assms(1) by (rule display_without_error)
  have len: "length (report_head kvs ?chart) = 7"
    by (simp add: report_head_def)
  obtain rest where rest: "fst (report (JObj kvs)) = report_head kvs ?chart @ rest"
    using report_begins_with_head [OF assms(2)] by (auto simp: prefix_def)
  have "take 7 (fst (report (JObj kvs))) = report_head kvs ?chart"
    unfolding rest using len by simp
  then have head: "take 7 (fst (report (JObj kvs))) =
           [Balloons, Header ''Analysis Report'',
            GaugeChart (case map_of kvs ''credibility_score'' of Some v \<Rightarrow> v | None \<Rightarrow> JInt 0),
            Subheader ''Quick Summary'',
            SummaryMarkdown
              (case map_of kvs ''summary'' of Some v \<Rightarrow> v | None \<Rightarrow> JStr ''No summary available.''),
            Info [], Subheader ''Detected Red Flags'']"
    by (simp add: report_head_def dict_get_def)
  have missing: "snd (report (JObj kvs)) = None \<and>
            red_flags_shown (fst (report (JObj kvs))) = [] \<and>
            drop 7 (fst (report (JObj kvs))) =
              [Success ''No significant red flags were detected.'',
               InsightSuccess
                 (case map_of kvs ''educational_insight'' of
                    Some v \<Rightarrow> v | None \<Rightarrow> JStr ''No educational insight available.'')]"
    if "map_of kvs ''red_flags'' = None"
  proof -
    have r: "report (JObj kvs) =
      (report_head kvs ?chart @ [Success ''No significant red flags were detected.''] @ report_tail kvs, None)"
      using assms(2) that by (rule report_without_red_flags)
    have "snd (report (JObj kvs)) = None" "red_flags_shown (fst (report (JObj kvs))) = []"
      unfolding r by simp_all
    moreover have "drop 7 (fst (report (JObj kvs))) =
        [Success ''No significant red flags were detected.''] @ report_tail kvs"
      unfolding r using len by simp
    ultimately show ?thesis
      by (simp add: report_tail_def dict_get_def)
  qed
  have ending: "last (fst (report (JObj kvs))) =
              InsightSuccess
                (case map_of kvs ''educational_insight'' of
                   Some v \<Rightarrow> v | None \<Rightarrow> JStr ''No educational insight available.'')"
    if completed: "snd (report (JObj kvs)) = None"
  proof -
    obtain front where "fst (report (JObj kvs)) = front @ report_tail kvs"
      using report_ends_with_tail [OF completed] by (auto simp: suffix_def)
    then show ?thesis
      by (simp add: report_tail_def dict_get_def)
  qed
  show ?thesis
    unfolding d using head missing ending by blast
qed

lemma summary_only_decoded:
  "json_loads (strip_fences ''{\"summary\": \"Forwarded rumour\"}'') =
     Inr (JObj [(''summary'', JStr ''Forwarded rumour'')])"
  by code_simp

theorem missing_fields_take_defaults_witness:
  "get_ai_analysis (\<lambda>request. Inr ''{\"summary\": \"Forwarded rumour\"}'') json_loads
     ''Is this true?'' None = Inr (JObj [(''summary'', JStr ''Forwarded rumour'')]) \<and>
   display_analysis_report (JObj [(''summary'', JStr ''Forwarded rumour'')]) =
     ([Balloons, Header ''Analysis Report'', GaugeChart (JInt 0), Subheader ''Quick Summary'',
       SummaryMarkdown (JStr ''Forwarded rumour''), Info [], Subheader ''Detected Red Flags'',
       Success ''No significant red flags were detected.'',
       InsightSuccess (JStr ''No educational insight available.'')], None)"
proof -
  let ?kvs = "[(''summary'', JStr ''Forwarded rumour'')]"
  have a: "get_ai_analysis (\<lambda>request. Inr ''{\"summary\": \"Forwarded rumour\"}'') json_loads
     ''Is this true?'' None = Inr (JObj ?kvs)"
    by (simp add: get_ai_analysis_def try_except_def analysis_body_def summary_only_decoded)
  have "''error'' \<notin> set (map fst ?kvs)" by simp
  moreover have "\<forall>v. map_of ?kvs ''credibility_score'' = Some v \<longrightarrow> plotly_number v" by simp
  ultimately have "take 7 (fst (display_analysis_report (JObj ?kvs))) =
           [Balloons, Header ''Analysis Report'',
            GaugeChart (case map_of ?kvs ''credibility_score'' of Some v \<Rightarrow> v | None \<Rightarrow> JInt 0),
            Subheader ''Quick Summary'',
            SummaryMarkdown
              (case map_of ?kvs ''summary'' of Some v \<Rightarrow> v | None \<Rightarrow> JStr ''No summary available.''),
            Info [], Subheader ''Detected Red Flags''] \<and>
         (map_of ?kvs ''red_flags'' = None \<longrightarrow>
            snd (display_analysis_report (JObj ?kvs)) = None \<and>
            red_flags_shown (fst (display_analysis_report (JObj ?kvs))) = [] \<and>
            drop 7 (fst (display_analysis_report (JObj ?kvs))) =
              [Success ''No significant red flags were detected.'',
               InsightSuccess
                 (case map_of ?kvs ''educational_insight'' of
                    Some v \<Rightarrow> v | None \<Rightarrow> JStr ''No educational insight available.'')]) \<and>
         (snd (display_analysis_report (JObj ?kvs)) = None \<longrightarrow>
            last (fst (display_analysis_report (JObj ?kvs))) =
              InsightSuccess
                (case map_of ?kvs ''educational_insight'' of
                   Some v \<Rightarrow> v | None \<Rightarrow> JStr ''No educational insight available.''))"
    by (rule missing_fields_take_defaults)
  then
  have t: "take 7 (fst (display_analysis_report (JObj ?kvs))) =
        [Balloons, Header ''Analysis Report'', GaugeChart (JInt 0), Subheader ''Quick Summary'',
         SummaryMarkdown (JStr ''Forwarded rumour''), Info [], Subheader ''Detected Red Flags'']"
    and s: "snd (display_analysis_report (JObj ?kvs)) = None"
    and r: "drop 7 (fst (display_analysis_report (JObj ?kvs))) =
        [Success ''No significant red flags were detected.'',
         InsightSuccess (JStr ''No educational insight available.'')]"
    by simp_all
  have "fst (display_analysis_report (JObj ?kvs)) =
      take 7 (fst (display_analysis_report (JObj ?kvs))) @
      drop 7 (fst (display_analysis_report (JObj ?kvs)))"
    by simp
  then have "fst (display_analysis_report (JObj ?kvs)) =
        [Balloons, Header ''Analysis Report'', GaugeChart (JInt 0), Subheader ''Quick Summary'',
         SummaryMarkdown (JStr ''Forwarded rumour''), Info [], Subheader ''Detected Red Flags'',
         Success ''No significant red flags were detected.'',
         InsightSuccess (JStr ''No educational insight available.'')]"
    unfolding t r by simp
  with s a show ?thesis
    by (simp add: prod_eq_iff)
qed

text \<open>
  C3 as it is stated fails on three responses that are JSON objects with keys missing. The
  first has the key \<^verbatim>\<open>"error"\<close>: it is shown as a failed analysis. The second has a
  number under \<^verbatim>\<open>red_flags\<close>: the loop over it raises after the head of the report. The
  third has a string as \<^verbatim>\<open>credibility_score\<close>: the gauge refuses it, after the balloons
  and the header.
\<close>

theorem missing_fields_counterexample:
  "get_ai_analysis (\<lambda>request. Inr ''{\"summary\": \"Fine\", \"error\": \"none\"}'') json_loads
     ''Is this true?'' None = Inr (JObj [(''summary'', JStr ''Fine''), (''error'', JStr ''none'')]) \<and>
   display_analysis_report (JObj [(''summary'', JStr ''Fine''), (''error'', JStr ''none'')]) =
     ([AnalysisError (JStr ''none'')], None) \<and>
   get_ai_analysis (\<lambda>request. Inr ''{\"summary\": \"Fine\", \"red_flags\": 3}'') json_loads
     ''Is this true?'' None = Inr (JObj [(''summary'', JStr ''Fine''), (''red_flags'', JInt 3)]) \<and>
   snd (display_analysis_report (JObj [(''summary'', JStr ''Fine''), (''red_flags'', JInt 3)])) =
     Some TypeError \<and>
   get_ai_analysis (\<lambda>request. Inr ''{\"credibility_score\": \"8/10\"}'') json_loads
     ''Is this true?'' None = Inr (JObj [(''credibility_score'', JStr ''8/10'')]) \<and>
   display_analysis_report (JObj [(''credibility_score'', JStr ''8/10'')]) =
     ([Balloons, Header ''Analysis Report''], Some ValueError)"
  unfolding get_ai_analysis_def analysis_body_def by code_simp

subsection \<open>The red flags\<close>

lemma shown_flag_widgets_all:
  "\<forall>f\<in>set flags. is_dict f \<or> is_str f \<Longrightarrow>
   red_flags_shown (concat (map flag_widgets flags)) =
   map (\<lambda>f. hd (red_flags_shown (flag_widgets f))) flags"
proof (induction flags)
  case Nil
  show ?case by (simp add: red_flags_shown_def)
next
  case (Cons f flags)
  then show ?case
    by (cases f) (simp_all add: red_flags_shown_def)
qed

lemma shown_flag_widgets_each:
  "red_flags_shown (concat (map flag_widgets flags)) =
   concat (map (\<lambda>f. case f of
       JStr s \<Rightarrow> [(JStr ''General Flag'', JStr s)]
     | JObj fkvs \<Rightarrow>
         [(case map_of fkvs ''flag_type'' of Some v \<Rightarrow> v | None \<Rightarrow> JStr ''General Flag'',
           case map_of fkvs ''description'' of
             Some v \<Rightarrow> v | None \<Rightarrow> JStr ''No description provided.'')]
     | _ \<Rightarrow> []) flags)"
proof (induction flags)
  case Nil
  show ?case by (simp add: red_flags_shown_def)
next
  case (Cons f flags)
  then show ?case
    by (cases f) (simp_all add: red_flags_shown_def dict_get_def)
qed

lemma report_list_flags:
  assumes "\<forall>v. map_of kvs ''credibility_score'' = Some v \<longrightarrow> plotly_number v"
      and "map_of kvs ''red_flags'' = Some (JArr flags)"
  shows "snd (report (JObj kvs)) = None"
    and "red_flags_shown (fst (report (JObj kvs))) = red_flags_shown (concat (map flag_widgets flags))"
  unfolding report_with_list [OF assms] by simp_all

text \<open>
  C4, as the code has it. Take a dict without the key \<^verbatim>\<open>"error"\<close> whose
  \<^verbatim>\<open>credibility_score\<close>, when it has one, is a value the gauge accepts, so that the report
  gets as far as the flags. When its \<^verbatim>\<open>red_flags\<close> is a list, drawing the flags raises
  nothing, and the flags drawn are, entry by entry and in the order of the list: for a
  string, one flag with the type \<^verbatim>\<open>General Flag\<close> and the string as description; for
  an object, one flag with its \<^verbatim>\<open>flag_type\<close> and \<^verbatim>\<open>description\<close> (each with a
  default); for any other entry, none. So a list of objects and strings loses no entry, and
  a list of plain strings is drawn as exactly these general flags, in order.
\<close>

theorem red_flags_of_a_list:
  assumes "''error'' \<notin> set (map fst kvs)"
      and "\<forall>v. map_of kvs ''credibility_score'' = Some v \<longrightarrow> plotly_number v"
      and "map_of kvs ''red_flags'' = Some (JArr flags)"
  shows "snd (display_analysis_report (JObj kvs)) = None \<and>
         red_flags_shown (fst (display_analysis_report (JObj kvs))) =
           concat (map (\<lambda>f. case f of
               JStr s \<Rightarrow> [(JStr ''General Flag'', JStr s)]
             | JObj fkvs \<Rightarrow>
                 [(case map_of fkvs ''flag_type'' of Some v \<Rightarrow> v | None \<Rightarrow> JStr ''General Flag'',
                   case map_of fkvs ''description'' of
                     Some v \<Rightarrow> v | None \<Rightarrow> JStr ''No description provided.'')]
             | _ \<Rightarrow> []) flags) \<and>
         ((\<forall>f\<in>set flags. is_dict f \<or> is_str f) \<longrightarrow>
            length (red_flags_shown (fst (display_analysis_report (JObj kvs)))) = length flags \<and>
            (\<forall>i<length flags. \<forall>s. flags ! i = JStr s \<longrightarrow>
               red_flags_shown (fst (display_analysis_report (JObj kvs))) ! i =
                 (JStr ''General Flag'', JStr s))) \<and>
         (\<forall>strs. flags = map JStr strs \<longrightarrow>
            red_flags_shown (fst (display_analysis_report (JObj kvs))) =
              map (\<lambda>s. (JStr ''General Flag'', JStr s)) strs)"
proof -
  have d: "display_analysis_report (JObj kvs) = report (JObj kvs)"
    using assms(1) by (rule display_without_error)
  note r = report_list_flags [OF assms(2,3)]
  have all: "length (red_flags_shown (concat (map flag_widgets flags))) = length flags \<and>
            (\<forall>i<length flags. \<forall>s. flags ! i = JStr s \<longrightarrow>
               red_flags_shown (concat (map flag_widgets flags)) ! i = (JStr ''General Flag'', JStr s))"
    if h: "\<forall>f\<in>set flags. is_dict f \<or> is_str f"
    unfolding shown_flag_widgets_all [OF h] by (simp add: red_flags_shown_def)
  show ?thesis
    unfolding d r using all shown_flag_widgets_each [of flags] shown_flag_widgets_strings
    by blast
qed

theorem red_flags_of_a_list_witness:
  "snd (display_analysis_report
          (JObj [(''red_flags'', JArr [JStr ''Too good to be true'', JStr ''No source named''])])) = None \<and>
   red_flags_shown (fst (display_analysis_report
          (JObj [(''red_flags'', JArr [JStr ''Too good to be true'', JStr ''No source named''])]))) =
     [(JStr ''General Flag'', JStr ''Too good to be true''),
      (JStr ''General Flag'', JStr ''No source named'')]"
proof -
  let ?flags = "[JStr ''Too good to be true'', JStr ''No source named'']"
  let ?kvs = "[(''red_flags'', JArr ?flags)]"
  have 1: "''error'' \<notin> set (map fst ?kvs)" by simp
  have 2: "map_of ?kvs ''red_flags'' = Some (JArr ?flags)" by simp
  have 3: "?flags = map JStr [''Too good to be true'', ''No source named'']" by simp
  have 0: "\<forall>v. map_of ?kvs ''credibility_score'' = Some v \<longrightarrow> plotly_number v" by simp
  note t = red_flags_of_a_list [OF 1 0 2]
  from t have s: "snd (display_analysis_report (JObj ?kvs)) = None"
    by (rule conjunct1)
  from t have "\<forall>strs. ?flags = map JStr strs \<longrightarrow>
            red_flags_shown (fst (display_analysis_report (JObj ?kvs))) =
              map (\<lambda>s. (JStr ''General Flag'', JStr s)) strs"
    by (elim conjE)
  from this [rule_format, OF 3] s show ?thesis
    by simp
qed

text \<open>
  C4 as it is stated fails. An entry that is neither an object nor a string takes no branch
  of the loop and is not drawn: of the two entries in \<^verbatim>\<open>[7, "No source named"]\<close> the page
  shows one. A \<^verbatim>\<open>red_flags\<close> that is a number is not iterable: the loop raises. And when
  the gauge refuses the score the function has raised before the loop: no flag is drawn.
\<close>

theorem red_flags_counterexample:
  "get_ai_analysis (\<lambda>request. Inr ''{\"red_flags\": [7, \"No source named\"]}'') json_loads
     ''Is this true?'' None = Inr (JObj [(''red_flags'', JArr [JInt 7, JStr ''No source named''])]) \<and>
   display_analysis_report (JObj [(''red_flags'', JArr [JInt 7, JStr ''No source named''])]) =
     ([Balloons, Header ''Analysis Report'', GaugeChart (JInt 0), Subheader ''Quick Summary'',
       SummaryMarkdown (JStr ''No summary available.''), Info [], Subheader ''Detected Red Flags'',
       FlagError (JStr ''General Flag'') (JStr ''No source named''),
       InsightSuccess (JStr ''No educational insight available.'')], None) \<and>
   get_ai_analysis (\<lambda>request. Inr ''{\"red_flags\": 7}'') json_loads
     ''Is this true?'' None = Inr (JObj [(''red_flags'', JInt 7)]) \<and>
   snd (display_analysis_report (JObj [(''red_flags'', JInt 7)])) = Some TypeError \<and>
   display_analysis_report
     (JObj [(''credibility_score'', JStr ''8/10''), (''red_flags'', JArr [JStr ''No source named''])]) =
     ([Balloons, Header ''Analysis Report''], Some ValueError)"
  unfolding get_ai_analysis_def analysis_body_def by code_simp

subsection \<open>Fetching\<close>






subsection \<open>Start-up\<close>

text \<open>
  C8, as the code has it. When the start-up block raises (loading the environment,
  \<^verbatim>\<open>genai.configure\<close> with the key read from the environment, or the constructor of the
  model), the run shows the error and stops there: whatever button the user pressed, no page
  is fetched and \<^verbatim>\<open>get_ai_analysis\<close> is not called.
\<close>

theorem startup_failure_halts:
  assumes "load_dotenv s = Some e \<or>
           (load_dotenv s = None \<and> configure s (getenv s ''GOOGLE_API_KEY'') = Some e) \<or>
           (load_dotenv s = None \<and> configure s (getenv s ''GOOGLE_API_KEY'') = None \<and>
              GenerativeModel s ''gemini-1.5-flash'' = Inl e)"
  shows "run_script s w image_open loads a =
           \<lparr>screen = [ModelError (exn_str e)], fetched = [], analysed = [], uncaught = None\<rparr>"
proof -
  from assms have "startup_body s = Inl e"
    by (auto simp: startup_body_def)
  then show ?thesis
    by (simp add: run_script_def)
qed

theorem startup_failure_halts_witness:
  "run_script
     \<lparr>load_dotenv = Some (Raised ''Permission denied: .env''),
      getenv = (\<lambda>name. Some ''a-key''),
      configure = genai_configure,
      GenerativeModel = genai_GenerativeModel (Some ''a-key'') (\<lambda>request. Inr ''{}'')\<rparr>
     \<lparr>requests_get = (\<lambda>url. Inl (Raised ''unreachable'')),
      raise_for_status = raise_for_status_4xx_5xx,
      paragraph_texts = (\<lambda>markup. Inr [])\<rparr>
     (\<lambda>file. Inr file) json_loads (TextButton ''Is this true?'') =
   \<lparr>screen = [ModelError ''Permission denied: .env''], fetched = [], analysed = [], uncaught = None\<rparr>"
proof -
  let ?s = "\<lparr>load_dotenv = Some (Raised ''Permission denied: .env''),
      getenv = (\<lambda>name. Some ''a-key''),
      configure = genai_configure,
      GenerativeModel = genai_GenerativeModel (Some ''a-key'') (\<lambda>request. Inr ''{}'')\<rparr> :: sys"
  let ?e = "Raised ''Permission denied: .env''"
  have "load_dotenv ?s = Some ?e \<or>
           (load_dotenv ?s = None \<and> configure ?s (getenv ?s ''GOOGLE_API_KEY'') = Some ?e) \<or>
           (load_dotenv ?s = None \<and> configure ?s (getenv ?s ''GOOGLE_API_KEY'') = None \<and>
              GenerativeModel ?s ''gemini-1.5-flash'' = Inl ?e)"
    by simp
  from startup_failure_halts [OF this] show ?thesis
    by simp
qed

text \<open>
  C8 as it is stated fails on its own example. The block has no test of the key: it hands
  what \<^verbatim>\<open>os.getenv\<close> returns to \<^verbatim>\<open>genai.configure\<close>, which raises nothing on
  \<^verbatim>\<open>None\<close>, and neither does the constructor. With the key absent from the environment
  the run does not stop; the text scan is served, \<^verbatim>\<open>get_ai_analysis\<close> is called, and it is
  the call of the model that fails, as a failed analysis.
\<close>

theorem startup_without_key_counterexample:
  "run_script
     \<lparr>load_dotenv = None, getenv = (\<lambda>name. None),
      configure = genai_configure,
      GenerativeModel = genai_GenerativeModel None (\<lambda>request. Inr ''{}'')\<rparr>
     \<lparr>requests_get = (\<lambda>url. Inl (Raised ''unreachable'')),
      raise_for_status = raise_for_status_4xx_5xx,
      paragraph_texts = (\<lambda>markup. Inr [])\<rparr>
     (\<lambda>file. Inr file) json_loads (TextButton ''Is this true?'') =
   \<lparr>screen = [AnalysisError (JStr ''AI analysis failed. The model response was not valid JSON. Details: No API_KEY found'')],
    fetched = [], analysed = [(''Is this true?'', None)], uncaught = None\<rparr>"
  by (simp add: run_script_def startup_body_def genai_configure_def genai_GenerativeModel_def
      handle_action_def text_scan_def analyse_and_display_def get_ai_analysis_def try_except_def
      analysis_body_def failure_record_def failure_prefix_def display_analysis_report_def)

subsection \<open>The URL scan\<close>

lemma url_scan_fetched:
  "url_input \<noteq> [] \<Longrightarrow> get_text_from_url w url_input = Inr scraped_text \<Longrightarrow>
   url_scan w generate loads url_input =
     (if sublist ''Error'' scraped_text
      then \<lparr>screen = [ErrorText scraped_text], fetched = [url_input], analysed = [], uncaught = None\<rparr>
      else (analyse_and_display generate loads scraped_text None)\<lparr>fetched := [url_input]\<rparr>)"
  by (simp add: url_scan_def)

lemma analysed_analyse_and_display:
  "analysed (analyse_and_display generate loads text_prompt img) = [(text_prompt, img)]"
  by (simp add: analyse_and_display_def split: sum.split)

text \<open>
  C9. In the URL scan, the text that \<^verbatim>\<open>get_text_from_url\<close> returns is taken for a failed
  fetch exactly when it contains \<^verbatim>\<open>Error\<close>: then it is shown as the error and
  \<^verbatim>\<open>get_ai_analysis\<close> is not called, otherwise \<^verbatim>\<open>get_ai_analysis\<close> is called once, on
  that text. So a page that was fetched and whose paragraphs, joined, contain
  \<^verbatim>\<open>Error\<close> is reported as a failed fetch and never analysed.
\<close>

theorem url_scan_told_by_substring:
  assumes "url_input \<noteq> []"
  shows "(\<forall>scraped_text. get_text_from_url w url_input = Inr scraped_text \<longrightarrow>
            (sublist ''Error'' scraped_text \<longrightarrow>
               url_scan w generate loads url_input =
                 \<lparr>screen = [ErrorText scraped_text], fetched = [url_input], analysed = [],
                  uncaught = None\<rparr>) \<and>
            (\<not> sublist ''Error'' scraped_text \<longrightarrow>
               url_scan w generate loads url_input =
                 (analyse_and_display generate loads scraped_text None)\<lparr>fetched := [url_input]\<rparr> \<and>
               analysed (url_scan w generate loads url_input) = [(scraped_text, None)])) \<and>
         (\<forall>response paragraphs.
            requests_get w url_input = Inr response \<and> raise_for_status w response = None \<and>
            paragraph_texts w (content response) = Inr paragraphs \<and>
            sublist ''Error'' (join '' '' paragraphs) \<longrightarrow>
              url_scan w generate loads url_input =
                \<lparr>screen = [ErrorText (join '' '' paragraphs)], fetched = [url_input], analysed = [],
                 uncaught = None\<rparr>)"
proof (intro conjI allI impI)
  fix scraped_text
  assume "get_text_from_url w url_input = Inr scraped_text" "sublist ''Error'' scraped_text"
  then show "url_scan w generate loads url_input =
       \<lparr>screen = [ErrorText scraped_text], fetched = [url_input], analysed = [], uncaught = None\<rparr>"
    using assms by (simp add: url_scan_fetched)
next
  fix scraped_text
  assume "get_text_from_url w url_input = Inr scraped_text" "\<not> sublist ''Error'' scraped_text"
  then show "url_scan w generate loads url_input =
       (analyse_and_display generate loads scraped_text None)\<lparr>fetched := [url_input]\<rparr>"
    using assms by (simp add: url_scan_fetched)
next
  fix scraped_text
  assume "get_text_from_url w url_input = Inr scraped_text" "\<not> sublist ''Error'' scraped_text"
  then show "analysed (url_scan w generate loads url_input) = [(scraped_text, None)]"
    using assms by (simp add: url_scan_fetched analysed_analyse_and_display)
next
  fix response paragraphs
  assume h: "requests_get w url_input = Inr response \<and> raise_for_status w response = None \<and>
            paragraph_texts w (content response) = Inr paragraphs \<and>
            sublist ''Error'' (join '' '' paragraphs)"
  then have "fetch_body w url_input = Inr (join '' '' paragraphs)"
    by (simp add: fetch_body_def)
  then have "get_text_from_url w url_input = Inr (join '' '' paragraphs)"
    by (simp add: get_text_from_url_def try_except_def)
  with h show "url_scan w generate loads url_input =
       \<lparr>screen = [ErrorText (join '' '' paragraphs)], fetched = [url_input], analysed = [],
        uncaught = None\<rparr>"
    using assms by (simp add: url_scan_fetched)
qed

lemma error_page_has_error: "sublist ''Error'' (join '' '' [''HTTP Error 404 explained'', ''What it means.''])"
  by code_simp

theorem url_scan_told_by_substring_witness:
  "url_scan
     \<lparr>requests_get = (\<lambda>url. Inr \<lparr>status_code = 200, content = ''<p>HTTP Error 404 explained</p><p>What it means.</p>''\<rparr>),
      raise_for_status = raise_for_status_4xx_5xx,
      paragraph_texts = (\<lambda>markup. Inr [''HTTP Error 404 explained'', ''What it means.''])\<rparr>
     (\<lambda>request. Inr ''{\"credibility_score\": 9}'') json_loads ''https://example.org/http-errors'' =
   \<lparr>screen = [ErrorText ''HTTP Error 404 explained What it means.''],
    fetched = [''https://example.org/http-errors''], analysed = [], uncaught = None\<rparr>"
proof -
  let ?r = "\<lparr>status_code = 200, content = ''<p>HTTP Error 404 explained</p><p>What it means.</p>''\<rparr>"
  let ?w = "\<lparr>requests_get = (\<lambda>url. Inr ?r),
      raise_for_status = raise_for_status_4xx_5xx,
      paragraph_texts = (\<lambda>markup. Inr [''HTTP Error 404 explained'', ''What it means.''])\<rparr>"
  let ?url = "''https://example.org/http-errors''"
  have n: "?url \<noteq> []" by simp
  have h: "requests_get ?w ?url = Inr ?r \<and> raise_for_status ?w ?r = None \<and>
        paragraph_texts ?w (content ?r) = Inr [''HTTP Error 404 explained'', ''What it means.''] \<and>
        sublist ''Error'' (join '' '' [''HTTP Error 404 explained'', ''What it means.''])"
    using error_page_has_error by (simp add: raise_for_status_4xx_5xx_def)
  from url_scan_told_by_substring [OF n, of ?w "\<lambda>request. Inr ''{\"credibility_score\": 9}''" json_loads]
  have "\<forall>response paragraphs.
            requests_get ?w ?url = Inr response \<and> raise_for_status ?w response = None \<and>
            paragraph_texts ?w (content response) = Inr paragraphs \<and>
            sublist ''Error'' (join '' '' paragraphs) \<longrightarrow>
              url_scan ?w (\<lambda>request. Inr ''{\"credibility_score\": 9}'') json_loads ?url =
                \<lparr>screen = [ErrorText (join '' '' paragraphs)], fetched = [?url], analysed = [],
                 uncaught = None\<rparr>"
    by (rule conjunct2)
  from this [rule_format, OF h] show ?thesis
    by simp
qed

subsection \<open>The key that decides\<close>

lemma display_dict_error_iff:
  "(\<exists>v. display_analysis_report (JObj kvs) = ([AnalysisError v], None)) \<longleftrightarrow>
   ''error'' \<in> set (map fst kvs)"
proof
  assume "\<exists>v. display_analysis_report (JObj kvs) = ([AnalysisError v], None)"
  then obtain v where v: "display_analysis_report (JObj kvs) = ([AnalysisError v], None)" ..
  show "''error'' \<in> set (map fst kvs)"
  proof (rule ccontr)
    assume "''error'' \<notin> set (map fst kvs)"
    then have "display_analysis_report (JObj kvs) = report (JObj kvs)"
      by (rule display_without_error)
    with v have "fst (report (JObj kvs)) = [AnalysisError v]"
      by simp
    with report_begins [of "JObj kvs"] show False
      by simp
  qed
next
  assume "''error'' \<in> set (map fst kvs)"
  then show "\<exists>v. display_analysis_report (JObj kvs) = ([AnalysisError v], None)"
    using display_with_error by blast
qed

lemma labelled_response_decoded:
  "json_loads (strip_fences ''{\"credibility_score\": 9, \"summary\": \"Accurate\", \"red_flags\": [], \"educational_insight\": \"Check the source.\", \"error\": null}'') =
   Inr (JObj [(''credibility_score'', JInt 9), (''summary'', JStr ''Accurate''),
              (''red_flags'', JArr []), (''educational_insight'', JStr ''Check the source.''),
              (''error'', JNull)])"
  by code_simp

text \<open>
  C10. A dict is shown as a failed analysis exactly when it has the key \<^verbatim>\<open>"error"\<close>,
  whatever the value under it. So there are responses for which the call and the decoding
  both succeed, giving a JSON object, and the result is still shown as a failed analysis:
  any object with a key \<^verbatim>\<open>"error"\<close>, here one with all four expected keys and
  \<^verbatim>\<open>"error": null\<close>.
\<close>

theorem error_key_decides:
  "(\<forall>kvs. (\<exists>v. display_analysis_report (JObj kvs) = ([AnalysisError v], None)) \<longleftrightarrow>
           ''error'' \<in> set (map fst kvs)) \<and>
   (\<forall>kvs. is_failure_record (JObj kvs) \<longleftrightarrow> ''error'' \<in> set (map fst kvs)) \<and>
   (\<exists>text kvs.
      get_ai_analysis (\<lambda>request. Inr text) json_loads ''Is this true?'' None = Inr (JObj kvs) \<and>
      json_loads (strip_fences text) = Inr (JObj kvs) \<and>
      display_analysis_report (JObj kvs) = ([AnalysisError JNull], None))"
proof (intro conjI allI)
  fix kvs
  show "(\<exists>v. display_analysis_report (JObj kvs) = ([AnalysisError v], None)) \<longleftrightarrow>
           ''error'' \<in> set (map fst kvs)"
    by (rule display_dict_error_iff)
  show "is_failure_record (JObj kvs) \<longleftrightarrow> ''error'' \<in> set (map fst kvs)"
    by simp
next
  let ?text = "''{\"credibility_score\": 9, \"summary\": \"Accurate\", \"red_flags\": [], \"educational_insight\": \"Check the source.\", \"error\": null}''"
  let ?kvs = "[(''credibility_score'', JInt 9), (''summary'', JStr ''Accurate''),
              (''red_flags'', JArr []), (''educational_insight'', JStr ''Check the source.''),
              (''error'', JNull)]"
  have "get_ai_analysis (\<lambda>request. Inr ?text) json_loads ''Is this true?'' None = Inr (JObj ?kvs)"
    by (simp add: get_ai_analysis_def try_except_def analysis_body_def labelled_response_decoded)
  moreover have "display_analysis_report (JObj ?kvs) = ([AnalysisError JNull], None)"
    by (simp add: display_analysis_report_def)
  ultimately show "\<exists>text kvs.
      get_ai_analysis (\<lambda>request. Inr text) json_loads ''Is this true?'' None = Inr (JObj kvs) \<and>
      json_loads (strip_fences text) = Inr (JObj kvs) \<and>
      display_analysis_report (JObj kvs) = ([AnalysisError JNull], None)"
    using labelled_response_decoded by blast
qed

theorem error_key_decides_witness:
  "(\<exists>v. display_analysis_report
          (JObj [(''credibility_score'', JInt 9), (''error'', JStr ''none'')]) =
        ([AnalysisError v], None))"
proof -
  have "''error'' \<in> set (map fst [(''credibility_score'', JInt 9), (''error'', JStr ''none'')])"
    by simp
  with error_key_decides show ?thesis
    by blast
qed

subsection \<open>Replacing and stripping\<close>

lemma not_prefix_hd: "old \<noteq> [] \<Longrightarrow> hd old \<noteq> c \<Longrightarrow> \<not> prefix old (c # cs)"
  by (cases old) simp_all

lemma replace_skips_front:
  "old \<noteq> [] \<Longrightarrow> hd old \<notin> set a \<Longrightarrow> replace old new (a @ u) = a @ replace old new u"
  by (induction a) (simp_all add: not_prefix_hd)

lemma prefix_needs_last:
  assumes "old \<noteq> []" "prefix old s"
  shows "last old \<in> set s"
proof -
  from assms(2) obtain zs where "s = old @ zs"
    by (auto simp: prefix_def)
  with assms(1) show ?thesis
    by simp
qed

lemma replace_no_match:
  "old \<noteq> [] \<Longrightarrow> last old \<notin> set b \<Longrightarrow> replace old new b = b"
proof (induction b)
  case Nil
  then show ?case by simp
next
  case (Cons c b)
  from Cons.prems have "\<not> prefix old (c # b)"
    using prefix_needs_last by blast
  with Cons show ?case by simp
qed

lemma prefix_append_no_last:
  assumes "old \<noteq> []" "last old \<notin> set b"
  shows "prefix old (s @ b) \<longleftrightarrow> prefix old s"
proof
  assume "prefix old (s @ b)"
  then consider "prefix old s" | us where "old = s @ us" "prefix us b"
    by (auto simp: prefix_append)
  then show "prefix old s"
  proof cases
    case 1
    then show ?thesis .
  next
    case 2
    show ?thesis
    proof (cases "us = []")
      case True
      with 2 show ?thesis by simp
    next
      case False
      with 2 have "last old = last us" by simp
      moreover from False 2(2) have "last us \<in> set b"
        by (rule prefix_needs_last)
      ultimately show ?thesis using assms(2) by simp
    qed
  qed
next
  assume "prefix old s"
  then show "prefix old (s @ b)" by simp
qed

lemma drop_append_le: "n \<le> length s \<Longrightarrow> drop n (s @ b) = drop n s @ b"
  by simp

lemma drop_append_ge: "length s \<le> n \<Longrightarrow> drop n (s @ b) = drop (n - length s) b"
  by simp

lemma replace_skips_back:
  "old \<noteq> [] \<Longrightarrow> last old \<notin> set b \<Longrightarrow> replace old new (u @ b) = replace old new u @ b"
proof (induction old new u rule: replace.induct)
  case (1 old new)
  then show ?case by (simp add: replace_no_match)
next
  case (2 old new c cs)
  have p: "prefix old ((c # cs) @ b) \<longleftrightarrow> prefix old (c # cs)"
    using "2.prems" by (rule prefix_append_no_last)
  show ?case
  proof (cases "prefix old (c # cs)")
    case True
    then have "length old \<le> length (c # cs)"
      by (rule prefix_length_le)
    then have "drop (length old) ((c # cs) @ b) = drop (length old) (c # cs) @ b"
      by (rule drop_append_le)
    with True p 2 show ?thesis
      by simp
  next
    case False
    with p 2 show ?thesis
      by simp
  qed
qed

lemma replace_at_front: "old \<noteq> [] \<Longrightarrow> replace old new (old @ t) = new @ replace old new t"
  by (cases old) simp_all

lemma replace_short: "length s < length old \<Longrightarrow> replace old new s = s"
proof (induction s)
  case Nil
  then show ?case by auto
next
  case (Cons c s)
  then have "\<not> prefix old (c # s)"
    using prefix_length_le by fastforce
  with Cons show ?case by auto
qed

lemma replace_run_at_end:
  assumes "old = replicate n c" "0 < n"
  shows "replace old [] (u @ old) = replace old [] u"
  using assms
proof (induction old "[] :: string" u rule: replace.induct)
  case (1 old)
  then have "old \<noteq> []" by auto
  then have "replace old [] (old @ []) = [] @ replace old [] []"
    by (rule replace_at_front)
  with \<open>old \<noteq> []\<close> show ?case by simp
next
  case (2 old x xs)
  then have ne: "old \<noteq> []" by auto
  show ?case
  proof (cases "prefix old (x # xs)")
    case True
    then have "length old \<le> length (x # xs)"
      by (rule prefix_length_le)
    then have d: "drop (length old) ((x # xs) @ old) = drop (length old) (x # xs) @ old"
      by (rule drop_append_le)
    have "prefix old ((x # xs) @ old)"
      using True by (rule prefix_prefix)
    then have "replace old [] ((x # xs) @ old) = replace old [] (drop (length old) ((x # xs) @ old))"
      using ne by simp
    also have "\<dots> = replace old [] (drop (length old) (x # xs))"
      unfolding d using ne True "2.prems" by (rule "2.hyps"(2))
    also have "\<dots> = replace old [] (x # xs)"
      using ne True by simp
    finally show ?thesis .
  next
    case False
    show ?thesis
    proof (cases "prefix old ((x # xs) @ old)")
      case True
      then have "prefix old (x # xs) \<or> (\<exists>us. old = (x # xs) @ us \<and> prefix us old)"
        by (simp only: prefix_append)
      with False obtain us where "old = (x # xs) @ us"
        by blast
      moreover from this False have "us \<noteq> []"
        by auto
      ultimately have us: "old = (x # xs) @ us" "us \<noteq> []" .
      then have short: "length (x # xs) < length old"
        by (metis add_diff_cancel_left' length_append length_greater_0_conv less_add_same_cancel1)
      from us "2.prems"(1) have run: "x # xs = replicate (length (x # xs)) c"
        by (metis append_eq_conv_conj short take_replicate min.strict_order_iff length_replicate)
      have "replace old [] ((x # xs) @ old) = replace old [] (drop (length old) ((x # xs) @ old))"
        using True ne by simp
      also have "drop (length old) ((x # xs) @ old) = drop (length old - length (x # xs)) old"
        using short by (intro drop_append_ge) simp
      also have "\<dots> = replicate (length (x # xs)) c"
        using "2.prems"(1) short by simp
      also have "\<dots> = x # xs"
        using run by simp
      finally show ?thesis
        using replace_short [OF short] by simp
    next
      case nomatch: False
      then have "replace old [] ((x # xs) @ old) = x # replace old [] (xs @ old)"
        using ne by simp
      also have "replace old [] (xs @ old) = replace old [] xs"
        using ne False "2.prems" by (rule "2.hyps"(3))
      also have "x # replace old [] xs = replace old [] (x # xs)"
        using ne False by simp
      finally show ?thesis .
    qed
  qed
qed

lemma replace_backticks_at_end: "replace ''```'' [] (u @ ''```'') = replace ''```'' [] u"
proof -
  have "''```'' = replicate 3 (CHR 0x60)"
    by (simp add: numeral_3_eq_3)
  then show ?thesis
    using replace_run_at_end [of "''```''" 3 "CHR 0x60" u] by simp
qed

lemma json_ws_isspace: "json_ws c \<Longrightarrow> isspace c"
  by (auto simp: json_ws_def isspace_def)

lemma json_ws_not_fence: "json_ws c \<Longrightarrow> c \<noteq> CHR 0x60 \<and> c \<noteq> CHR ''n''"
  by (auto simp: json_ws_def)

lemma strip_padded:
  assumes "\<forall>c\<in>set o1. isspace c" "\<forall>c\<in>set o2. isspace c"
      and "f \<noteq> []" "\<not> isspace (hd f)" "\<not> isspace (last f)"
  shows "strip (o1 @ f @ o2) = f"
proof -
  have "dropWhile isspace (o1 @ f @ o2) = f @ o2"
    using assms(1,3,4) by (cases f) (simp_all add: dropWhile_append2)
  moreover have "dropWhile isspace (rev o2 @ rev f) = rev f"
  proof -
    have "dropWhile isspace (rev o2 @ rev f) = dropWhile isspace (rev f)"
      by (intro dropWhile_append2) (use assms(2) in auto)
    also have "\<dots> = rev f"
      using assms(3,5) by (simp add: dropWhile_eq_self_iff hd_rev)
    finally show ?thesis .
  qed
  ultimately show ?thesis
    by (simp add: strip_def)
qed

lemma strip_splits:
  assumes "\<forall>c\<in>set (takeWhile isspace t). json_ws c"
      and "\<forall>c\<in>set (takeWhile isspace (rev t)). json_ws c"
  obtains a b where "t = a @ strip t @ b" "\<forall>c\<in>set a. json_ws c" "\<forall>c\<in>set b. json_ws c"
proof -
  let ?a = "takeWhile isspace t"
  let ?r = "dropWhile isspace t"
  let ?b = "rev (takeWhile isspace (rev ?r))"
  have t: "t = ?a @ ?r" by simp
  have "strip t @ ?b = rev (takeWhile isspace (rev ?r) @ dropWhile isspace (rev ?r))"
    by (simp only: strip_def rev_append)
  also have "\<dots> = rev (rev ?r)"
    by (simp only: takeWhile_dropWhile_id)
  also have "\<dots> = ?r"
    by (simp only: rev_rev_ident)
  finally have r: "?r = strip t @ ?b" ..
  have b: "\<forall>c\<in>set ?b. json_ws c"
  proof (cases "?r = []")
    case True
    show ?thesis unfolding True by simp
  next
    case False
    then have "\<not> isspace (hd ?r)"
      by (rule hd_dropWhile)
    moreover from False have "hd ?r \<in> set (rev ?r)"
      by simp
    ultimately have "takeWhile isspace (rev ?r @ rev ?a) = takeWhile isspace (rev ?r)"
      by (intro takeWhile_append1) auto
    moreover have "rev t = rev ?r @ rev ?a"
      by (metis rev_append t)
    ultimately have "takeWhile isspace (rev t) = takeWhile isspace (rev ?r)"
      by simp
    with assms(2) show ?thesis
      by simp
  qed
  from t r have "t = ?a @ strip t @ ?b"
    by simp
  with assms(1) b show ?thesis
    using that by blast
qed

lemma fences_removed:
  "replace ''```'' [] (replace ''```json'' [] (''```json'' @ x @ ''```'')) =
   replace ''```'' [] (replace ''```json'' [] x)"
proof -
  have "replace ''```json'' [] (''```json'' @ (x @ ''```'')) = [] @ replace ''```json'' [] (x @ ''```'')"
    by (rule replace_at_front) simp
  also have "replace ''```json'' [] (x @ ''```'') = replace ''```json'' [] x @ ''```''"
    by (rule replace_skips_back) simp_all
  finally show ?thesis
    by (simp only: append_Nil replace_backticks_at_end)
qed

lemma replace_keeps_json_ws:
  assumes "\<forall>c\<in>set a. json_ws c" "\<forall>c\<in>set b. json_ws c"
  shows "replace ''```'' [] (replace ''```json'' [] (a @ u @ b)) =
         a @ replace ''```'' [] (replace ''```json'' [] u) @ b"
proof -
  from assms have a: "CHR 0x60 \<notin> set a" and b: "CHR 0x60 \<notin> set b" "CHR ''n'' \<notin> set b"
    using json_ws_not_fence by blast+
  have "replace ''```json'' [] (a @ (u @ b)) = a @ replace ''```json'' [] (u @ b)"
    using a by (intro replace_skips_front) simp_all
  also have "replace ''```json'' [] (u @ b) = replace ''```json'' [] u @ b"
    using b by (intro replace_skips_back) simp_all
  finally have "replace ''```'' [] (replace ''```json'' [] (a @ u @ b)) =
      replace ''```'' [] (a @ (replace ''```json'' [] u @ b))"
    by simp
  also have "\<dots> = a @ replace ''```'' [] (replace ''```json'' [] u @ b)"
    using a by (intro replace_skips_front) simp_all
  also have "replace ''```'' [] (replace ''```json'' [] u @ b) =
      replace ''```'' [] (replace ''```json'' [] u) @ b"
    using b by (intro replace_skips_back) simp_all
  finally show ?thesis .
qed

lemma strip_fences_of_fenced:
  assumes "\<forall>c\<in>set o1. isspace c" "\<forall>c\<in>set o2. isspace c"
      and "\<forall>c\<in>set p. json_ws c" "\<forall>c\<in>set q. json_ws c"
      and "\<forall>c\<in>set (takeWhile isspace t). json_ws c"
      and "\<forall>c\<in>set (takeWhile isspace (rev t)). json_ws c"
  obtains a b where "\<forall>c\<in>set a. json_ws c" "\<forall>c\<in>set b. json_ws c"
    "strip_fences (o1 @ ''```json'' @ p @ t @ q @ ''```'' @ o2) = a @ strip_fences t @ b"
proof -
  from assms(5,6) obtain a b where
    t: "t = a @ strip t @ b" and a: "\<forall>c\<in>set a. json_ws c" and b: "\<forall>c\<in>set b. json_ws c"
    by (rule strip_splits)
  let ?f = "''```json'' @ (p @ t @ q) @ ''```''"
  have 1: "strip (o1 @ ?f @ o2) = ?f"
    using assms(1,2) by (rule strip_padded) (simp_all add: isspace_def)
  have 2: "strip_fences (o1 @ ?f @ o2) = replace ''```'' [] (replace ''```json'' [] ?f)"
    unfolding strip_fences_def 1 ..
  have 3: "replace ''```'' [] (replace ''```json'' [] ?f) =
      replace ''```'' [] (replace ''```json'' [] (p @ t @ q))"
    by (rule fences_removed)
  have "p @ t @ q = p @ (a @ strip t @ b) @ q"
    using t by simp
  then have 4: "p @ t @ q = (p @ a) @ strip t @ (b @ q)"
    by simp
  have 5: "replace ''```'' [] (replace ''```json'' [] ((p @ a) @ strip t @ (b @ q))) =
      (p @ a) @ strip_fences t @ (b @ q)"
    unfolding strip_fences_def using assms(3,4) a b by (intro replace_keeps_json_ws) auto
  have 6: "o1 @ ''```json'' @ p @ t @ q @ ''```'' @ o2 = o1 @ ?f @ o2"
    by simp
  have "strip_fences (o1 @ ''```json'' @ p @ t @ q @ ''```'' @ o2) = strip_fences (o1 @ ?f @ o2)"
    by (simp only: 6)
  also note 2
  also note 3
  also have "replace ''```'' [] (replace ''```json'' [] (p @ t @ q)) =
      replace ''```'' [] (replace ''```json'' [] ((p @ a) @ strip t @ (b @ q)))"
    by (simp only: 4)
  also note 5
  finally have "strip_fences (o1 @ ''```json'' @ p @ t @ q @ ''```'' @ o2) =
      (p @ a) @ strip_fences t @ (b @ q)" .
  moreover have "\<forall>c\<in>set (p @ a). json_ws c" "\<forall>c\<in>set (b @ q). json_ws c"
    using assms(3,4) a b by auto
  ultimately show ?thesis
    using that by blast
qed

subsection \<open>The reference decoder and white space\<close>

lemma ready_ws: "json_ws c \<Longrightarrow> ready m st c = Running Ready m st"
  by (simp add: ready_def)

lemma number_next_ws: "json_ws c \<Longrightarrow> number_next ph c = number_next ph (CHR '' '')"
  by (cases ph) (auto simp: json_ws_def is_digit_def is_e_def)

lemma number_next_blank: "number_next ph (CHR '' '') \<noteq> Continue ph'"
  by (cases ph) (simp_all add: is_digit_def is_e_def)

lemma json_ws_in_string:
  assumes "json_ws c"
  shows "c \<noteq> CHR 0x22" "c \<noteq> CHR 0x5C" "c = CHR '' '' \<or> (of_char c :: nat) < 32"
  using assms by (auto simp: json_ws_def)

lemma no_escape_code:
  "list_all (\<lambda>c. c \<noteq> CHR ''u'' \<and> simple_escape c = None \<and> hex_val c = None)
     [CHR 0x20, CHR 0x09, CHR 0x0A, CHR 0x0D]"
  by code_simp

lemma json_ws_no_escape:
  assumes "json_ws c"
  shows "c \<noteq> CHR ''u''" "simple_escape c = None" "hex_val c = None"
  using assms no_escape_code unfolding json_ws_def list_all_iff by blast+

lemma finish_failed: "finish Failed = Inl (Raised ''JSONDecodeError'')"
  by (simp add: finish_def)

lemma finish_string: "finish (Running (InString acc) mo st) = Inl (Raised ''JSONDecodeError'')"
  by (simp add: finish_def)

lemma push_ready: "push t m st = Running l m' st' \<Longrightarrow> l = Ready"
  by (auto simp: push_def split: option.splits)

lemma finish_after_ws:
  assumes "literal_ok m" "json_ws c"
  shows "finish (feed m c) = finish m"
proof (cases m)
  case Failed
  then show ?thesis by simp
next
  case (Running l mo st)
  have sp: "json_ws (CHR '' '')"
    by (simp add: json_ws_def)
  show ?thesis
  proof (cases l)
    case Ready
    with Running assms(2) show ?thesis
      by (simp add: ready_ws)
  next
    case (InString acc)
    from json_ws_in_string [OF assms(2)]
    have "feed (Running (InString acc) mo st) c = Failed \<or>
          feed (Running (InString acc) mo st) c = Running (InString (c # acc)) mo st"
      by auto
    then have "finish (feed (Running (InString acc) mo st) c) = Inl (Raised ''JSONDecodeError'')"
      by (auto simp only: finish_failed finish_string)
    with Running InString show ?thesis
      by (simp only: finish_string)
  next
    case (InEscape acc)
    have f1: "feed (Running (InEscape acc) mo st) c = Failed"
      using json_ws_no_escape [OF assms(2)] by simp
    have f2: "feed (Running (InEscape acc) mo st) (CHR '' '') = Failed"
      using json_ws_no_escape [OF sp] by simp
    show ?thesis
      unfolding Running InEscape finish_def f1 f2 by simp
  next
    case (InUnicode acc hs)
    have f1: "feed (Running (InUnicode acc hs) mo st) c = Failed"
      using json_ws_no_escape [OF assms(2)] by simp
    have f2: "feed (Running (InUnicode acc hs) mo st) (CHR '' '') = Failed"
      using json_ws_no_escape [OF sp] by simp
    show ?thesis
      unfolding Running InUnicode finish_def f1 f2 by simp
  next
    case (InNumber ph lx)
    have n: "number_next ph c = number_next ph (CHR '' '')"
      using assms(2) by (rule number_next_ws)
    show ?thesis
    proof (cases "number_next ph (CHR '' '')")
      case (Continue ph')
      then show ?thesis
        using number_next_blank by blast
    next
      case Ends
      show ?thesis
      proof (cases "push (TScalar (number_value (rev lx))) mo st")
        case Failed
        with Ends n have f: "feed (Running (InNumber ph lx) mo st) c = Failed"
          "feed (Running (InNumber ph lx) mo st) (CHR '' '') = Failed"
          by simp_all
        show ?thesis
          unfolding \<open>m = Running l mo st\<close> InNumber finish_def f by simp
      next
        case (Running l' m' st')
        then have "l' = Ready"
          by (rule push_ready)
        with Running Ends n have f: "feed (Running (InNumber ph lx) mo st) c = Running Ready m' st'"
          "feed (Running (InNumber ph lx) mo st) (CHR '' '') = Running Ready m' st'"
          using assms(2) sp by (simp_all add: ready_ws)
        show ?thesis
          unfolding \<open>m = Running l mo st\<close> InNumber finish_def f using sp by (simp add: ready_ws)
      qed
    next
      case Bad
      with n have f: "feed (Running (InNumber ph lx) mo st) c = Failed"
          "feed (Running (InNumber ph lx) mo st) (CHR '' '') = Failed"
        by simp_all
      show ?thesis
        unfolding Running InNumber finish_def f by simp
    qed
  next
    case (InLiteral rest v)
    show ?thesis
    proof (cases rest)
      case Nil
      then show ?thesis
        unfolding Running InLiteral by (simp add: finish_def)
    next
      case (Cons x xs)
      with assms(1) Running InLiteral have "\<not> json_ws x"
        by simp
      with assms(2) sp have "c \<noteq> x" "CHR '' '' \<noteq> x"
        by auto
      then have f: "feed (Running (InLiteral rest v) mo st) c = Failed"
          "feed (Running (InLiteral rest v) mo st) (CHR '' '') = Failed"
        using Cons by simp_all
      show ?thesis
        unfolding Running InLiteral finish_def f by simp
    qed
  qed
qed

subsection \<open>Code fences\<close>

lemma feed_ws_between_tokens:
  "\<forall>c\<in>set a. json_ws c \<Longrightarrow> foldl feed (Running Ready m st) a = Running Ready m st"
  by (induction a) (simp_all add: ready_ws)

lemma literal_ok_ready: "literal_ok (ready m st c)"
  by (simp add: ready_def push_def json_ws_def split: option.split)

lemma literal_ok_push: "literal_ok (push t m st)"
  by (simp add: push_def split: option.split)

lemma literal_ok_feed: "literal_ok m \<Longrightarrow> literal_ok (feed m c)"
proof (cases m)
  case Failed
  then show ?thesis by simp
next
  case (Running l mo st)
  assume ok: "literal_ok m"
  show ?thesis
  proof (cases l)
    case (InNumber ph lx)
    with Running show ?thesis
      by (auto simp: literal_ok_ready split: nstep.split machine.split)
  next
    case (InLiteral rest v)
    with Running ok show ?thesis
      by (cases rest) (simp_all add: literal_ok_push)
  qed (use Running in \<open>simp_all add: literal_ok_ready literal_ok_push Let_def split: option.split\<close>)
qed

lemma literal_ok_foldl: "literal_ok m \<Longrightarrow> literal_ok (foldl feed m s)"
  by (induction s arbitrary: m) (simp_all add: literal_ok_feed)

lemma finish_after_ws_run:
  "literal_ok m \<Longrightarrow> \<forall>c\<in>set b. json_ws c \<Longrightarrow> finish (foldl feed m b) = finish m"
proof (induction b arbitrary: m)
  case Nil
  show ?case by simp
next
  case (Cons c b)
  then have "finish (foldl feed (feed m c) b) = finish (feed m c)"
    by (simp add: literal_ok_feed)
  with Cons.prems show ?case
    by (simp add: finish_after_ws)
qed

lemma json_loads_ignores_ws:
  assumes "\<forall>c\<in>set a. json_ws c" "\<forall>c\<in>set b. json_ws c"
  shows "json_loads (a @ s @ b) = json_loads s"
proof -
  let ?init = "Running Ready Val []"
  have "foldl feed ?init (a @ s @ b) = foldl feed (foldl feed ?init s) b"
    using assms(1) by (simp add: feed_ws_between_tokens)
  moreover have "literal_ok (foldl feed ?init s)"
    by (rule literal_ok_foldl) simp
  ultimately show ?thesis
    using assms(2) by (simp add: json_loads_def finish_after_ws_run)
qed

text \<open>
  C5. Let the decoder give the same value, or none, whatever JSON white space stands around
  a text, as \<^verbatim>\<open>json.loads\<close> does; and let the white space at the two ends of \<open>t\<close>
  be JSON white space, as it is in every JSON text. Then \<open>t\<close> between the fence
  \<^verbatim>\<open>```json\<close> and the fence \<^verbatim>\<open>```\<close> (line breaks or blanks inside the fences,
  any white space outside them) is cleaned and decoded to the same value as \<open>t\<close> alone,
  and so it is in the body of \<^verbatim>\<open>get_ai_analysis\<close>.
\<close>

theorem fenced_response_parses_alike:
  assumes "\<forall>a s b. (\<forall>c\<in>set a. json_ws c) \<and> (\<forall>c\<in>set b. json_ws c) \<longrightarrow>
             parsed_value (loads (a @ s @ b)) = parsed_value (loads s)"
      and "\<forall>c\<in>set o1. isspace c" and "\<forall>c\<in>set o2. isspace c"
      and "\<forall>c\<in>set p. json_ws c" and "\<forall>c\<in>set q. json_ws c"
      and "\<forall>c\<in>set (takeWhile isspace t). json_ws c"
      and "\<forall>c\<in>set (takeWhile isspace (rev t)). json_ws c"
  shows "parsed_value (loads (strip_fences (o1 @ ''```json'' @ p @ t @ q @ ''```'' @ o2))) =
           parsed_value (loads (strip_fences t)) \<and>
         parsed_value (analysis_body (\<lambda>request. Inr (o1 @ ''```json'' @ p @ t @ q @ ''```'' @ o2))
                         loads text_prompt img) =
           parsed_value (analysis_body (\<lambda>request. Inr t) loads text_prompt img)"
proof -
  from assms(2-7) obtain a b where
    "\<forall>c\<in>set a. json_ws c" "\<forall>c\<in>set b. json_ws c"
    "strip_fences (o1 @ ''```json'' @ p @ t @ q @ ''```'' @ o2) = a @ strip_fences t @ b"
    by (rule strip_fences_of_fenced)
  with assms(1) have
    "parsed_value (loads (strip_fences (o1 @ ''```json'' @ p @ t @ q @ ''```'' @ o2))) =
       parsed_value (loads (strip_fences t))"
    by simp
  then show ?thesis
    by (simp add: analysis_body_def)
qed

lemma padded_text_decoded:
  "json_loads (strip_fences '' {\"summary\": \"Scam\"}\<newline>'') = Inr (JObj [(''summary'', JStr ''Scam'')])"
  by code_simp

theorem fenced_response_parses_alike_witness:
  "parsed_value (json_loads (strip_fences ''  ```json\<newline> {\"summary\": \"Scam\"}\<newline>\<newline>```\<newline>'')) =
     Some (JObj [(''summary'', JStr ''Scam'')]) \<and>
   parsed_value (json_loads (strip_fences '' {\"summary\": \"Scam\"}\<newline>'')) =
     Some (JObj [(''summary'', JStr ''Scam'')])"
proof -
  let ?t = "'' {\"summary\": \"Scam\"}\<newline>''"
  have 1: "\<forall>a s b. (\<forall>c\<in>set a. json_ws c) \<and> (\<forall>c\<in>set b. json_ws c) \<longrightarrow>
             parsed_value (json_loads (a @ s @ b)) = parsed_value (json_loads s)"
    by (simp add: json_loads_ignores_ws)
  have 2: "\<forall>c\<in>set ''  ''. isspace c" and 3: "\<forall>c\<in>set ''\<newline>''. isspace c"
    by (simp_all add: isspace_def)
  have 4: "\<forall>c\<in>set ''\<newline>''. json_ws c" and 5: "\<forall>c\<in>set ''\<newline>''. json_ws c"
    by (simp_all add: json_ws_def)
  have 6: "\<forall>c\<in>set (takeWhile isspace ?t). json_ws c"
    by (simp add: isspace_def json_ws_def)
  have 7: "\<forall>c\<in>set (takeWhile isspace (rev ?t)). json_ws c"
    by (simp add: isspace_def json_ws_def)
  from fenced_response_parses_alike [OF 1 2 3 4 5 6 7]
  have "parsed_value (json_loads (strip_fences (''  '' @ ''```json'' @ ''\<newline>'' @ ?t @ ''\<newline>'' @ ''```'' @ ''\<newline>''))) =
           parsed_value (json_loads (strip_fences ?t))"
    by (rule conjunct1)
  then show ?thesis
    by (simp add: padded_text_decoded parsed_value_def)
qed

subsection \<open>A well-formed response\<close>

lemma flags_with_both_fields:
  "list_all2 (\<lambda>f p. \<exists>fkvs. f = JObj fkvs \<and> map_of fkvs ''flag_type'' = Some (fst p) \<and>
                      map_of fkvs ''description'' = Some (snd p)) flags pairs \<Longrightarrow>
   concat (map flag_widgets flags) = map (\<lambda>p. FlagError (fst p) (snd p)) pairs"
proof (induction flags pairs rule: list_all2_induct)
  case Nil
  show ?case by simp
next
  case (Cons f p flags pairs)
  then show ?case
    by (auto simp: dict_get_def)
qed

lemma replace_absent: "old \<noteq> [] \<Longrightarrow> \<not> sublist old s \<Longrightarrow> replace old new s = s"
proof (induction s)
  case Nil
  then show ?case by simp
next
  case (Cons c s)
  then have "\<not> prefix old (c # s)" "\<not> sublist old s"
    by (auto simp: sublist_Cons_right)
  with Cons show ?case by simp
qed

lemma sublist_strip: "sublist (strip t) t"
proof -
  have "sublist (strip t) (dropWhile isspace t)"
    unfolding strip_def by (simp add: sublist_rev_left)
  moreover have "sublist (dropWhile isspace t) t"
    by simp
  ultimately show ?thesis
    by (rule sublist_order.order_trans)
qed

lemma strip_fences_without_fence:
  assumes "\<not> sublist ''```'' t"
  shows "strip_fences t = strip t"
proof -
  have 3: "\<not> sublist ''```'' (strip t)"
  proof
    assume "sublist ''```'' (strip t)"
    from this sublist_strip have "sublist ''```'' t"
      by (rule sublist_order.order_trans)
    with assms show False ..
  qed
  have 7: "\<not> sublist ''```json'' (strip t)"
  proof
    assume a: "sublist ''```json'' (strip t)"
    have "prefix ''```'' ''```json''"
      by simp
    then have "sublist ''```'' ''```json''"
      by (rule prefix_imp_sublist)
    from this a have "sublist ''```'' (strip t)"
      by (rule sublist_order.order_trans)
    with 3 show False ..
  qed
  have "replace ''```json'' [] (strip t) = strip t"
    using 7 by (intro replace_absent) simp_all
  moreover have "replace ''```'' [] (strip t) = strip t"
    using 3 by (intro replace_absent) simp_all
  ultimately show ?thesis
    by (simp only: strip_fences_def)
qed

lemma parsed_value_Inr: "parsed_value r = Some v \<longleftrightarrow> r = Inr v"
  by (cases r) (simp_all add: parsed_value_def)

lemma cleaned_response_decodes:
  assumes ws: "\<forall>a s b. (\<forall>c\<in>set a. json_ws c) \<and> (\<forall>c\<in>set b. json_ws c) \<longrightarrow>
             parsed_value (loads (a @ s @ b)) = parsed_value (loads s)"
      and "\<forall>c\<in>set o1. isspace c" and "\<forall>c\<in>set o2. isspace c"
      and "\<forall>c\<in>set p. json_ws c" and "\<forall>c\<in>set q. json_ws c"
      and "\<forall>c\<in>set (takeWhile isspace t). json_ws c"
      and "\<forall>c\<in>set (takeWhile isspace (rev t)). json_ws c"
      and "\<not> sublist ''```'' t"
      and "loads t = Inr v"
      and "response = t \<or> response = o1 @ ''```json'' @ p @ t @ q @ ''```'' @ o2"
  shows "loads (strip_fences response) = Inr v"
proof -
  from assms(6,7) obtain a b where
    t: "t = a @ strip t @ b" and a: "\<forall>c\<in>set a. json_ws c" and b: "\<forall>c\<in>set b. json_ws c"
    by (rule strip_splits)
  from ws a b have around: "parsed_value (loads (a @ strip t @ b)) = parsed_value (loads (strip t))"
    by blast
  have whole: "a @ strip t @ b = t"
    using t by (rule sym)
  have core: "parsed_value (loads (strip t)) = Some v"
    unfolding around [symmetric] whole assms(9) by (simp add: parsed_value_def)
  have plain: "strip_fences t = strip t"
    using assms(8) by (rule strip_fences_without_fence)
  have "parsed_value (loads (strip_fences response)) = Some v"
    using assms(10)
  proof
    assume "response = t"
    with plain core show ?thesis
      by simp
  next
    assume r: "response = o1 @ ''```json'' @ p @ t @ q @ ''```'' @ o2"
    from assms(2-7) obtain a' b' where
      "\<forall>c\<in>set a'. json_ws c" "\<forall>c\<in>set b'. json_ws c"
      "strip_fences (o1 @ ''```json'' @ p @ t @ q @ ''```'' @ o2) = a' @ strip_fences t @ b'"
      by (rule strip_fences_of_fenced)
    with ws have "parsed_value (loads (strip_fences response)) = parsed_value (loads (strip_fences t))"
      unfolding r by simp
    with plain core show ?thesis
      by simp
  qed
  then show ?thesis
    by (simp only: parsed_value_Inr)
qed

lemma cleaned_object_reported:
  assumes "generate (request_content text_prompt img) = Inr response"
      and "loads (strip_fences response) = Inr (JObj kvs)"
      and "set (map fst kvs) = {''credibility_score'', ''summary'', ''red_flags'', ''educational_insight''}"
      and "map_of kvs ''credibility_score'' = Some score" and "is_number score"
      and "map_of kvs ''summary'' = Some summary"
      and "map_of kvs ''red_flags'' = Some (JArr flags)"
      and "map_of kvs ''educational_insight'' = Some insight"
      and "list_all2 (\<lambda>f p. \<exists>fkvs. f = JObj fkvs \<and> map_of fkvs ''flag_type'' = Some (fst p) \<and>
                      map_of fkvs ''description'' = Some (snd p)) flags pairs"
  shows "get_ai_analysis generate loads text_prompt img = Inr (JObj kvs) \<and>
         is_success_record (JObj kvs) \<and>
         display_analysis_report (JObj kvs) =
           ([Balloons, Header ''Analysis Report'', GaugeChart score, Subheader ''Quick Summary'',
             SummaryMarkdown summary, Info [], Subheader ''Detected Red Flags''] @
            (if pairs = [] then [Success ''No significant red flags were detected.'']
             else map (\<lambda>p. FlagError (fst p) (snd p)) pairs) @
            [InsightSuccess insight], None) \<and>
         red_flags_shown (fst (display_analysis_report (JObj kvs))) = pairs"
proof -
  have "analysis_body generate loads text_prompt img = Inr (JObj kvs)"
    using assms(1,2) by (simp add: analysis_body_def)
  then have a: "get_ai_analysis generate loads text_prompt img = Inr (JObj kvs)"
    by (rule get_ai_analysis_value)
  have e: "''error'' \<notin> set (map fst kvs)"
    unfolding assms(3) by simp
  have d: "display_analysis_report (JObj kvs) = report (JObj kvs)"
    using e by (rule display_without_error)
  have ok: "\<forall>v. map_of kvs ''credibility_score'' = Some v \<longrightarrow> plotly_number v"
    using assms(4,5) by (cases score) simp_all
  have w: "concat (map flag_widgets flags) = map (\<lambda>p. FlagError (fst p) (snd p)) pairs"
    using assms(9) by (rule flags_with_both_fields)
  have n: "flags = [] \<longleftrightarrow> pairs = []"
    using assms(9) by (auto simp: list_all2_Nil list_all2_Nil2)
  have r: "report (JObj kvs) =
           ([Balloons, Header ''Analysis Report'', GaugeChart score, Subheader ''Quick Summary'',
             SummaryMarkdown summary, Info [], Subheader ''Detected Red Flags''] @
            (if pairs = [] then [Success ''No significant red flags were detected.'']
             else map (\<lambda>p. FlagError (fst p) (snd p)) pairs) @
            [InsightSuccess insight], None)"
    unfolding report_with_list [OF ok assms(7)] w n
    by (simp add: report_head_def report_tail_def dict_get_def assms(4,6,8))
  have s: "red_flags_shown (map (\<lambda>p. FlagError (fst p) (snd p)) pairs) = pairs"
    by (induction pairs) (simp_all add: red_flags_shown_def)
  have "red_flags_shown (fst (report (JObj kvs))) = pairs"
    unfolding r using s by (simp add: red_flags_shown_def)
  with a e d r show ?thesis
    by simp
qed

text \<open>
  C6, as the code has it. Let the response be a JSON text \<open>t\<close>, alone or between the
  fences, that holds no run of three backquotes, and let \<open>t\<close> itself decode to a well-formed
  object: exactly the four keys, a number as \<^verbatim>\<open>credibility_score\<close>, and as
  \<^verbatim>\<open>red_flags\<close> a list of objects that each have a \<^verbatim>\<open>flag_type\<close> and a
  \<^verbatim>\<open>description\<close>. The decoder is one that gives the same value whatever JSON white space
  stands around a text, as \<^verbatim>\<open>json.loads\<close> does. Then \<^verbatim>\<open>get_ai_analysis\<close> returns that
  object, it is a success record, and the report shows the four values of the response as
  they are: the score in the gauge, the summary, one flag per entry with its type and
  description in order (the note that none was detected when the list is empty), and the
  insight.
\<close>

theorem well_formed_response_round_trip:
  assumes "\<forall>a s b. (\<forall>c\<in>set a. json_ws c) \<and> (\<forall>c\<in>set b. json_ws c) \<longrightarrow>
             parsed_value (loads (a @ s @ b)) = parsed_value (loads s)"
      and "\<forall>c\<in>set o1. isspace c" and "\<forall>c\<in>set o2. isspace c"
      and "\<forall>c\<in>set p. json_ws c" and "\<forall>c\<in>set q. json_ws c"
      and "\<forall>c\<in>set (takeWhile isspace t). json_ws c"
      and "\<forall>c\<in>set (takeWhile isspace (rev t)). json_ws c"
      and "\<not> sublist ''```'' t"
      and "loads t = Inr (JObj kvs)"
      and "response = t \<or> response = o1 @ ''```json'' @ p @ t @ q @ ''```'' @ o2"
      and "generate (request_content text_prompt img) = Inr response"
      and "set (map fst kvs) = {''credibility_score'', ''summary'', ''red_flags'', ''educational_insight''}"
      and "map_of kvs ''credibility_score'' = Some score" and "is_number score"
      and "map_of kvs ''summary'' = Some summary"
      and "map_of kvs ''red_flags'' = Some (JArr flags)"
      and "map_of kvs ''educational_insight'' = Some insight"
      and "list_all2 (\<lambda>f p. \<exists>fkvs. f = JObj fkvs \<and> map_of fkvs ''flag_type'' = Some (fst p) \<and>
                      map_of fkvs ''description'' = Some (snd p)) flags pairs"
  shows "get_ai_analysis generate loads text_prompt img = Inr (JObj kvs) \<and>
         is_success_record (JObj kvs) \<and>
         display_analysis_report (JObj kvs) =
           ([Balloons, Header ''Analysis Report'', GaugeChart score, Subheader ''Quick Summary'',
             SummaryMarkdown summary, Info [], Subheader ''Detected Red Flags''] @
            (if pairs = [] then [Success ''No significant red flags were detected.'']
             else map (\<lambda>p. FlagError (fst p) (snd p)) pairs) @
            [InsightSuccess insight], None) \<and>
         red_flags_shown (fst (display_analysis_report (JObj kvs))) = pairs"
proof -
  have "loads (strip_fences response) = Inr (JObj kvs)"
    using assms(1-10) by (rule cleaned_response_decodes)
  with assms(11) show ?thesis
    using assms(12-18) by (rule cleaned_object_reported)
qed



lemma scenario_decoded:
  "json_loads ''{\"credibility_score\": 2, \"summary\": \"Scam\", \"red_flags\": [{\"flag_type\":\"Urgency\",\"description\":\"Pressure to act fast\"}], \"educational_insight\": \"Lottery scams...\"}'' =
   Inr (JObj
       [(''credibility_score'', JInt 2), (''summary'', JStr ''Scam''),
        (''red_flags'',
         JArr [JObj [(''flag_type'', JStr ''Urgency''),
                     (''description'', JStr ''Pressure to act fast'')]]),
        (''educational_insight'', JStr ''Lottery scams...'')])"
  by code_simp

lemma scenario_without_fence:
  "\<not> sublist ''```'' ''{\"credibility_score\": 2, \"summary\": \"Scam\", \"red_flags\": [{\"flag_type\":\"Urgency\",\"description\":\"Pressure to act fast\"}], \"educational_insight\": \"Lottery scams...\"}''"
  by code_simp

theorem well_formed_response_round_trip_witness:
  "get_ai_analysis
     (\<lambda>request. Inr ''```json\<newline>{\"credibility_score\": 2, \"summary\": \"Scam\", \"red_flags\": [{\"flag_type\":\"Urgency\",\"description\":\"Pressure to act fast\"}], \"educational_insight\": \"Lottery scams...\"}\<newline>```'')
     json_loads ''CONGRATS! You won...'' None =
     Inr (JObj
       [(''credibility_score'', JInt 2), (''summary'', JStr ''Scam''),
        (''red_flags'',
         JArr [JObj [(''flag_type'', JStr ''Urgency''),
                     (''description'', JStr ''Pressure to act fast'')]]),
        (''educational_insight'', JStr ''Lottery scams...'')]) \<and>
   display_analysis_report (JObj
       [(''credibility_score'', JInt 2), (''summary'', JStr ''Scam''),
        (''red_flags'',
         JArr [JObj [(''flag_type'', JStr ''Urgency''),
                     (''description'', JStr ''Pressure to act fast'')]]),
        (''educational_insight'', JStr ''Lottery scams...'')]) =
     ([Balloons, Header ''Analysis Report'', GaugeChart (JInt 2), Subheader ''Quick Summary'',
       SummaryMarkdown (JStr ''Scam''), Info [], Subheader ''Detected Red Flags'',
       FlagError (JStr ''Urgency'') (JStr ''Pressure to act fast''),
       InsightSuccess (JStr ''Lottery scams...'')], None)"
proof -
  let ?t = "''{\"credibility_score\": 2, \"summary\": \"Scam\", \"red_flags\": [{\"flag_type\":\"Urgency\",\"description\":\"Pressure to act fast\"}], \"educational_insight\": \"Lottery scams...\"}''"
  let ?response = "[] @ ''```json'' @ ''\<newline>'' @ ?t @ ''\<newline>'' @ ''```'' @ []"
  let ?generate = "\<lambda>request :: part list. Inr ?response :: exn + string"
  let ?flag = "JObj [(''flag_type'', JStr ''Urgency''), (''description'', JStr ''Pressure to act fast'')]"
  let ?kvs = "[(''credibility_score'', JInt 2), (''summary'', JStr ''Scam''),
        (''red_flags'', JArr [?flag]), (''educational_insight'', JStr ''Lottery scams...'')]"
  have 1: "\<forall>a s b. (\<forall>c\<in>set a. json_ws c) \<and> (\<forall>c\<in>set b. json_ws c) \<longrightarrow>
             parsed_value (json_loads (a @ s @ b)) = parsed_value (json_loads s)"
    by (simp add: json_loads_ignores_ws)
  have 2: "\<forall>c\<in>set ([] :: string). isspace c" by simp
  have 4: "\<forall>c\<in>set ''\<newline>''. json_ws c" by (simp add: json_ws_def)
  have 6: "\<forall>c\<in>set (takeWhile isspace ?t). json_ws c" by (simp add: isspace_def)
  have 7: "\<forall>c\<in>set (takeWhile isspace (rev ?t)). json_ws c" by (simp add: isspace_def)
  have 10: "?response = ?t \<or> ?response = [] @ ''```json'' @ ''\<newline>'' @ ?t @ ''\<newline>'' @ ''```'' @ []"
    by (rule disjI2) (rule refl)
  have 11: "?generate (request_content ''CONGRATS! You won...'' None) = Inr ?response"
    by (rule refl)
  have 12: "set (map fst ?kvs) = {''credibility_score'', ''summary'', ''red_flags'', ''educational_insight''}"
    by simp
  have 13: "map_of ?kvs ''credibility_score'' = Some (JInt 2)" by simp
  have 14: "is_number (JInt 2)" by simp
  have 15: "map_of ?kvs ''summary'' = Some (JStr ''Scam'')" by simp
  have 16: "map_of ?kvs ''red_flags'' = Some (JArr [?flag])" by simp
  have 17: "map_of ?kvs ''educational_insight'' = Some (JStr ''Lottery scams...'')" by simp
  have 18: "list_all2 (\<lambda>f p. \<exists>fkvs. f = JObj fkvs \<and> map_of fkvs ''flag_type'' = Some (fst p) \<and>
                      map_of fkvs ''description'' = Some (snd p)) [?flag]
             [(JStr ''Urgency'', JStr ''Pressure to act fast'')]"
    by simp
  from well_formed_response_round_trip
         [where loads = json_loads and generate = ?generate and response = ?response,
          OF 1 2 2 4 4 6 7 scenario_without_fence scenario_decoded 10 11 12 13 14 15 16 17 18]
  show ?thesis by simp
qed

text \<open>
  C6 as it is stated fails. The two \<^verbatim>\<open>replace\<close> calls work on the whole text of the
  response, the strings in it included: a well-formed response whose summary holds three
  backquotes comes back with another summary.
\<close>

theorem well_formed_response_counterexample:
  "json_loads ''{\"credibility_score\": 2, \"summary\": \"Put it in ``` fences\", \"red_flags\": [], \"educational_insight\": \"Ask.\"}'' =
     Inr (JObj [(''credibility_score'', JInt 2), (''summary'', JStr ''Put it in ``` fences''),
                (''red_flags'', JArr []), (''educational_insight'', JStr ''Ask.'')]) \<and>
   get_ai_analysis
     (\<lambda>request. Inr ''{\"credibility_score\": 2, \"summary\": \"Put it in ``` fences\", \"red_flags\": [], \"educational_insight\": \"Ask.\"}'')
     json_loads ''Is this true?'' None =
     Inr (JObj [(''credibility_score'', JInt 2), (''summary'', JStr ''Put it in  fences''),
                (''red_flags'', JArr []), (''educational_insight'', JStr ''Ask.'')]) \<and>
   display_analysis_report
     (JObj [(''credibility_score'', JInt 2), (''summary'', JStr ''Put it in  fences''),
            (''red_flags'', JArr []), (''educational_insight'', JStr ''Ask.'')]) =
     ([Balloons, Header ''Analysis Report'', GaugeChart (JInt 2), Subheader ''Quick Summary'',
       SummaryMarkdown (JStr ''Put it in  fences''), Info [], Subheader ''Detected Red Flags'',
       Success ''No significant red flags were detected.'',
       InsightSuccess (JStr ''Ask.'')], None)"
  unfolding get_ai_analysis_def analysis_body_def by code_simp

end
